theory Spec2Isabelle
  imports Main
begin

section \<open>Data model of pkg/operator/controller/controller.go\<close>

text \<open>
  The objects the controller reads and writes. Go structs are records; the nested
  \<open>Spec\<close> and \<open>Status\<close> structs are flattened into prefixed fields. A Go pointer that
  may be nil is an \<open>option\<close>; a string-typed enumeration stays a string.
\<close>

type_synonym time = nat

record namespaced_name =
  nn_Namespace :: string
  nn_Name :: string

text \<open>\<open>reconcile.Request\<close> embeds a \<open>types.NamespacedName\<close> and nothing else.\<close>

type_synonym request = namespaced_name

text \<open>\<open>reconcile.Result{}\<close>: the zero value has \<open>Requeue = false\<close>, \<open>RequeueAfter = 0\<close>.\<close>

record result =
  Requeue :: bool
  RequeueAfter :: nat

record operator_condition =
  cond_Type :: string
  cond_Status :: string
  cond_Reason :: string
  cond_Message :: string
  cond_LastTransitionTime :: time

record endpoint_publishing_strategy =
  eps_Type :: string

record ingress_controller =
  ic_Namespace :: string
  ic_Name :: string
  Finalizers :: "string list"
  DeletionTimestamp :: "time option"
  Spec_Domain :: string
  Spec_EndpointPublishingStrategy :: "endpoint_publishing_strategy option"
  Status_Domain :: string
  Status_EndpointPublishingStrategy :: "endpoint_publishing_strategy option"
  Status_Conditions :: "operator_condition list"

text \<open>The three cluster configs, with the fields this file reads.\<close>

record dns_config =
  dns_Spec_BaseDomain :: string

record infrastructure =
  infra_Status_Platform :: string

record ingress_config =
  ingress_Spec_Domain :: string

record deployment =
  dep_Name :: string
  dep_UID :: string

record service =
  svc_Name :: string

record owner_reference =
  ref_APIVersion :: string
  ref_Kind :: string
  ref_Name :: string
  ref_UID :: string
  ref_Controller :: "bool option"

record core_event =
  ev_Reason :: string

text \<open>
  The objects of \<open>pkg/manifests\<close> that the scaffolding and the metrics integration get
  or create. Their rendering is outside this file; only their identity matters here.
  The stats secret is rendered for an ingress controller and is created with owner
  references.
\<close>

datatype manifest =
    RouterClusterRole
  | RouterNamespace
  | RouterServiceAccount
  | RouterClusterRoleBinding
  | RouterStatsSecret string "owner_reference list"
  | MetricsClusterRole
  | MetricsClusterRoleBinding
  | MetricsRole
  | MetricsRoleBinding

subsection \<open>Constants\<close>

definition IngressControllerFinalizer :: string where
  "IngressControllerFinalizer = ''ingresscontroller.operator.openshift.io/finalizer-ingresscontroller''"

text \<open>String constants of \<open>github.com/openshift/api\<close>.\<close>

definition AWSPlatformType :: string where "AWSPlatformType = ''AWS''"
definition AzurePlatformType :: string where "AzurePlatformType = ''Azure''"
definition GCPPlatformType :: string where "GCPPlatformType = ''GCP''"
definition LibvirtPlatformType :: string where "LibvirtPlatformType = ''Libvirt''"

definition LoadBalancerServiceStrategyType :: string where
  "LoadBalancerServiceStrategyType = ''LoadBalancerService''"
definition HostNetworkStrategyType :: string where
  "HostNetworkStrategyType = ''HostNetwork''"

definition IngressControllerAvailableConditionType :: string where
  "IngressControllerAvailableConditionType = ''Available''"
definition ConditionFalse :: string where "ConditionFalse = ''False''"

subsection \<open>Errors\<close>

text \<open>
  An error of the object store is a status error that either has the reason NotFound
  or has not. \<open>fmt.Errorf(format, args..., err)\<close> is kept unrendered: the format, the
  arguments before the wrapped error, and the wrapped error (every \<open>Errorf\<close> of this
  file ends in \<open>%v\<close> of one error). \<open>utilerrors.NewAggregate\<close> gives nil for an empty
  list and the aggregate of the list otherwise; no list built in this file holds nil.
\<close>

datatype error =
    StatusNotFound string
  | StatusError string
  | Errorf string "string list" error
  | Aggregate "error list"

fun IsNotFound :: "error \<Rightarrow> bool" where
  "IsNotFound (StatusNotFound m) = True"
| "IsNotFound e = False"

definition NewAggregate :: "error list \<Rightarrow> error option" where
  "NewAggregate errlist = (if errlist = [] then None else Some (Aggregate errlist))"

text \<open>\<open>%q\<close> of a request prints its \<open>String()\<close>, namespace/name; the quoting is left to the format.\<close>

definition request_String :: "request \<Rightarrow> string" where
  "request_String request = nn_Namespace request @ ''/'' @ nn_Name request"

section \<open>The reconciler's collaborators and the log of a pass\<close>

text \<open>
  The client, the cache and the reconciler methods defined in other files are
  parameters: each is an arbitrary transition on a world \<open>'w\<close> that also returns what
  the Go call returns. A call that writes its answer into an object it was handed
  (\<open>Get\<close>, \<open>Update\<close>, \<open>Status().Update\<close>) returns that object on success; on failure the
  object is taken to be left as it was. The methods defined in other files are taken
  not to modify the ingress controller they are handed.
\<close>

record 'w client =
  client_Get_IngressController :: "namespaced_name \<Rightarrow> 'w \<Rightarrow> (error + ingress_controller) \<times> 'w"
  client_Get_DNS :: "namespaced_name \<Rightarrow> 'w \<Rightarrow> (error + dns_config) \<times> 'w"
  client_Get_Infrastructure :: "namespaced_name \<Rightarrow> 'w \<Rightarrow> (error + infrastructure) \<times> 'w"
  client_Get_Ingress :: "namespaced_name \<Rightarrow> 'w \<Rightarrow> (error + ingress_config) \<times> 'w"
  client_Get_Manifest :: "manifest \<Rightarrow> 'w \<Rightarrow> error option \<times> 'w"
  client_Create :: "manifest \<Rightarrow> 'w \<Rightarrow> error option \<times> 'w"
  client_Update :: "ingress_controller \<Rightarrow> 'w \<Rightarrow> (error + ingress_controller) \<times> 'w"
  client_Status_Update :: "ingress_controller \<Rightarrow> 'w \<Rightarrow> (error + ingress_controller) \<times> 'w"

record 'w cache =
  cache_List_IngressControllers :: "string \<Rightarrow> 'w \<Rightarrow> (error + ingress_controller list) \<times> 'w"
  cache_List_Events :: "string \<Rightarrow> 'w \<Rightarrow> (error + core_event list) \<times> 'w"

record 'w reconciler =
  Namespace :: string
  client :: "'w client"
  cache :: "'w cache"
  Now :: "'w \<Rightarrow> time"
  finalizeLoadBalancerService :: "ingress_controller \<Rightarrow> dns_config \<Rightarrow> 'w \<Rightarrow> error option \<times> 'w"
  ensureRouterDeleted :: "ingress_controller \<Rightarrow> 'w \<Rightarrow> error option \<times> 'w"
  ensureRouterDeployment :: "ingress_controller \<Rightarrow> infrastructure \<Rightarrow> 'w \<Rightarrow> (error + deployment) \<times> 'w"
  ensureLoadBalancerService ::
    "ingress_controller \<Rightarrow> owner_reference \<Rightarrow> infrastructure \<Rightarrow> 'w \<Rightarrow> (service option \<times> error option) \<times> 'w"
  ensureDNS :: "ingress_controller \<Rightarrow> service \<Rightarrow> dns_config \<Rightarrow> 'w \<Rightarrow> error option \<times> 'w"
  ensureInternalIngressControllerService ::
    "ingress_controller \<Rightarrow> owner_reference \<Rightarrow> 'w \<Rightarrow> (error + service option) \<times> 'w"
  ensureServiceMonitor ::
    "ingress_controller \<Rightarrow> service option \<Rightarrow> owner_reference \<Rightarrow> 'w \<Rightarrow> error option \<times> 'w"
  syncIngressControllerStatus ::
    "ingress_controller \<Rightarrow> deployment \<Rightarrow> service option \<Rightarrow> core_event list \<Rightarrow> 'w \<Rightarrow> error option \<times> 'w"
  syncOperatorStatus :: "'w \<Rightarrow> error option \<times> 'w"

text \<open>
  The log of a pass is ghost state: it records, in order, every call that leaves this
  file together with its outcome, and the entry and return of each reconciler method
  of this file that \<open>Reconcile\<close> invokes (\<open>Enter\<close>, \<open>Leave\<close> with the returned error and
  the value of \<open>Reconcile\<close>'s variable \<open>ingress\<close> after the call).
\<close>

datatype step =
    EnsureRouterNamespace
  | EnforceEffectiveIngressDomain
  | EnforceEffectiveEndpointPublishingStrategy
  | EnsureIngressDeleted
  | EnforceIngressFinalizer
  | EnsureIngressController

datatype collaborator =
    FinalizeLoadBalancerService
  | EnsureRouterDeleted
  | EnsureRouterDeployment
  | EnsureLoadBalancerService
  | EnsureDNS
  | EnsureInternalIngressControllerService
  | EnsureServiceMonitor
  | SyncIngressControllerStatus
  | SyncOperatorStatus

datatype call =
    Get_IngressController namespaced_name "error + ingress_controller"
  | Get_DNS "error + dns_config"
  | Get_Infrastructure "error + infrastructure"
  | Get_Ingress "error + ingress_config"
  | Get_Manifest manifest "error option"
  | Create manifest "error option"
  | Update ingress_controller "error + ingress_controller"
  | Status_Update ingress_controller "error + ingress_controller"
  | List_IngressControllers string "error + ingress_controller list"
  | List_Events string "error + core_event list"
  | Method collaborator "error option"
  | Enter step
  | Leave step "error option" "ingress_controller option"

record 'w run =
  world :: 'w
  trace :: "call list"

definition emit :: "call \<Rightarrow> 'w run \<Rightarrow> 'w run" where
  "emit c s = s\<lparr>trace := trace s @ [c]\<rparr>"

text \<open>\<open>ext f ev\<close> makes the outside call \<open>f\<close> on the world and logs it with its outcome.\<close>

definition ext :: "('w \<Rightarrow> 'a \<times> 'w) \<Rightarrow> ('a \<Rightarrow> call) \<Rightarrow> 'w run \<Rightarrow> 'a \<times> 'w run" where
  "ext f ev s = (case f (world s) of (a, w') \<Rightarrow> (a, \<lparr>world = w', trace = trace s @ [ev a]\<rparr>))"

definition err_of :: "error + 'a \<Rightarrow> error option" where
  "err_of x = (case x of Inl e \<Rightarrow> Some e | Inr v \<Rightarrow> None)"

text \<open>
  \<open>invoke\<close> and \<open>invoke_ic\<close> log the entry and the return of a reconciler method of this
  file at its call site in \<open>Reconcile\<close>. \<open>invoke_ic\<close> is for a method that may rewrite the
  ingress controller it is handed through its pointer: the method's model returns the
  object as it is afterwards.
\<close>

definition invoke ::
  "step \<Rightarrow> ingress_controller \<Rightarrow> ('w run \<Rightarrow> error option \<times> 'w run) \<Rightarrow> 'w run \<Rightarrow> error option \<times> 'w run" where
  "invoke st ic f s =
     (case f (emit (Enter st) s) of (err, s') \<Rightarrow> (err, emit (Leave st err (Some ic)) s'))"

definition invoke_ic ::
  "step \<Rightarrow> ('w run \<Rightarrow> (error option \<times> ingress_controller) \<times> 'w run) \<Rightarrow> 'w run
     \<Rightarrow> (error option \<times> ingress_controller) \<times> 'w run" where
  "invoke_ic st f s =
     (case f (emit (Enter st) s) of
        ((err, ic'), s') \<Rightarrow> ((err, ic'), emit (Leave st err (Some ic')) s'))"

section \<open>Helpers of other packages of the repository\<close>

text \<open>
  Modelled from the spec: \<open>slice.ContainsString\<close> and \<open>slice.RemoveString\<close> of
  \<open>pkg/util/slice\<close> are not among the sources. The spec has the finalizers as a set of
  tokens, the token being appended "if the guard token is absent" and the removal
  being of "the finalizer token": membership, and dropping every occurrence.
\<close>

definition ContainsString :: "string list \<Rightarrow> string \<Rightarrow> bool" where
  "ContainsString slice s = (s \<in> set slice)"

definition RemoveString :: "string list \<Rightarrow> string \<Rightarrow> string list" where
  "RemoveString slice s = filter (\<lambda>item. item \<noteq> s) slice"

text \<open>
  Modelled from the spec: \<open>getIngressAvailableCondition\<close> and
  \<open>setIngressLastTransitionTime\<close> are defined in another file of the package that is
  not among the sources. The spec has the conditions as an ordered set with one entry
  for a type, and "LastTransitionTime updates only when Status changes for a given
  Type": the old condition is the entry of type Available, if any, and the new
  condition takes over its LastTransitionTime when their Status values are equal and
  takes the current time otherwise.
\<close>

definition getIngressAvailableCondition :: "operator_condition list \<Rightarrow> operator_condition option" where
  "getIngressAvailableCondition conditions =
     find (\<lambda>c. cond_Type c = IngressControllerAvailableConditionType) conditions"

definition setIngressLastTransitionTime ::
  "time \<Rightarrow> operator_condition \<Rightarrow> operator_condition option \<Rightarrow> operator_condition" where
  "setIngressLastTransitionTime now condition oldCondition =
     (case oldCondition of
        Some old \<Rightarrow>
          if cond_Status condition = cond_Status old
          then condition\<lparr>cond_LastTransitionTime := cond_LastTransitionTime old\<rparr>
          else condition\<lparr>cond_LastTransitionTime := now\<rparr>
      | None \<Rightarrow> condition\<lparr>cond_LastTransitionTime := now\<rparr>)"

text \<open>\<open>%q\<close> of a string: the string between double quotes. A domain name holds no
  character that \<open>%q\<close> would escape, and no escaping is modelled.\<close>

definition Quote :: "string \<Rightarrow> string" where
  "Quote str = CHR 0x22 # str @ [CHR 0x22]"

section \<open>The methods of controller.go\<close>

subsection \<open>isDomainUnique (lines 242-258)\<close>

text \<open>The loop over \<open>ingresses.Items\<close>: the first item whose status domain equals the
  candidate ends it with false.\<close>

fun noConflict :: "string \<Rightarrow> ingress_controller list \<Rightarrow> bool" where
  "noConflict domain [] = True"
| "noConflict domain (ing # items) =
     (if domain = Status_Domain ing then False else noConflict domain items)"

definition isDomainUnique :: "'w reconciler \<Rightarrow> string \<Rightarrow> 'w run \<Rightarrow> (bool \<times> error option) \<times> 'w run" where
  "isDomainUnique r domain s =
     (case ext (cache_List_IngressControllers (cache r) (Namespace r))
               (List_IngressControllers (Namespace r)) s of
        (Inl err, s1) \<Rightarrow> ((False, Some (Errorf ''failed to list ingresscontrollers: %v'' [] err)), s1)
      | (Inr items, s1) \<Rightarrow> ((noConflict domain items, None), s1))"

subsection \<open>enforceEffectiveIngressDomain (lines 195-237)\<close>

definition enforceEffectiveIngressDomain ::
  "'w reconciler \<Rightarrow> ingress_controller \<Rightarrow> ingress_config \<Rightarrow> 'w run
     \<Rightarrow> (error option \<times> ingress_controller) \<times> 'w run" where
  "enforceEffectiveIngressDomain r ic ingressConfig s =
     (if length (Status_Domain ic) > 0 then ((None, ic), s)
      else
        let updated = ic;
            domain = (if length (Spec_Domain ic) > 0 then Spec_Domain ic
                      else ingress_Spec_Domain ingressConfig)
        in
        case isDomainUnique r domain s of
          ((unique, Some err), s1) \<Rightarrow> ((Some err, ic), s1)
        | ((unique, None), s1) \<Rightarrow>
            let updated =
              (if \<not> unique then
                 let availableCondition =
                       \<lparr>cond_Type = IngressControllerAvailableConditionType,
                        cond_Status = ConditionFalse,
                        cond_Reason = ''InvalidDomain'',
                        cond_Message = ''domain '' @ Quote domain @ '' is already in use by another IngressController'',
                        cond_LastTransitionTime = 0\<rparr>;
                     oldAvailableCondition = getIngressAvailableCondition (Status_Conditions updated);
                     availableCondition =
                       setIngressLastTransitionTime (Now r (world s1)) availableCondition oldAvailableCondition
                 in updated\<lparr>Status_Conditions := [availableCondition]\<rparr>
               else updated\<lparr>Status_Domain := domain\<rparr>)
            in
            case ext (client_Status_Update (client r) updated) (Status_Update updated) s1 of
              (Inl err, s2) \<Rightarrow>
                ((Some (Errorf ''failed to update status of IngressController %s/%s: %v''
                          [ic_Namespace updated, ic_Name updated] err), ic), s2)
            | (Inr updated, s2) \<Rightarrow>
                let key = \<lparr>nn_Namespace = ic_Namespace updated, nn_Name = ic_Name updated\<rparr> in
                case ext (client_Get_IngressController (client r) key) (Get_IngressController key) s2 of
                  (Inl err, s3) \<Rightarrow>
                    ((Some (Errorf ''failed to get IngressController %s/%s: %v''
                              [ic_Namespace updated, ic_Name updated] err), ic), s3)
                | (Inr ic', s3) \<Rightarrow> ((None, ic'), s3))"

subsection \<open>publishingStrategyTypeForInfra (lines 262-270)\<close>

definition publishingStrategyTypeForInfra :: "infrastructure \<Rightarrow> string" where
  "publishingStrategyTypeForInfra infraConfig =
     (if infra_Status_Platform infraConfig = AWSPlatformType
         \<or> infra_Status_Platform infraConfig = AzurePlatformType
         \<or> infra_Status_Platform infraConfig = GCPPlatformType
      then LoadBalancerServiceStrategyType
      else if infra_Status_Platform infraConfig = LibvirtPlatformType
      then HostNetworkStrategyType
      else HostNetworkStrategyType)"

subsection \<open>enforceEffectiveEndpointPublishingStrategy (lines 275-299)\<close>

definition enforceEffectiveEndpointPublishingStrategy ::
  "'w reconciler \<Rightarrow> ingress_controller \<Rightarrow> infrastructure \<Rightarrow> 'w run
     \<Rightarrow> (error option \<times> ingress_controller) \<times> 'w run" where
  "enforceEffectiveEndpointPublishingStrategy r ci infraConfig s =
     (if Status_EndpointPublishingStrategy ci \<noteq> None then ((None, ci), s)
      else
        let updated = ci;
            updated =
              (case Spec_EndpointPublishingStrategy ci of
                 Some strategy \<Rightarrow> updated\<lparr>Status_EndpointPublishingStrategy := Some strategy\<rparr>
               | None \<Rightarrow>
                   updated\<lparr>Status_EndpointPublishingStrategy :=
                     Some \<lparr>eps_Type = publishingStrategyTypeForInfra infraConfig\<rparr>\<rparr>)
        in
        case ext (client_Status_Update (client r) updated) (Status_Update updated) s of
          (Inl err, s1) \<Rightarrow>
            ((Some (Errorf ''failed to update status of ingresscontroller %s/%s: %v''
                      [ic_Namespace updated, ic_Name updated] err), ci), s1)
        | (Inr updated, s1) \<Rightarrow>
            let key = \<lparr>nn_Namespace = ic_Namespace updated, nn_Name = ic_Name updated\<rparr> in
            case ext (client_Get_IngressController (client r) key) (Get_IngressController key) s1 of
              (Inl err, s2) \<Rightarrow>
                ((Some (Errorf ''failed to get ingresscontroller %s/%s: %v''
                          [ic_Namespace updated, ic_Name updated] err), ci), s2)
            | (Inr ci', s2) \<Rightarrow> ((None, ci'), s2))"

subsection \<open>enforceIngressFinalizer (lines 302-311)\<close>

text \<open>The finalizer is appended to the object in memory before the update is sent, so
  it stays appended there when the update fails.\<close>

definition enforceIngressFinalizer ::
  "'w reconciler \<Rightarrow> ingress_controller \<Rightarrow> 'w run \<Rightarrow> (error option \<times> ingress_controller) \<times> 'w run" where
  "enforceIngressFinalizer r ingress s =
     (if \<not> ContainsString (Finalizers ingress) IngressControllerFinalizer then
        let ingress = ingress\<lparr>Finalizers := Finalizers ingress @ [IngressControllerFinalizer]\<rparr> in
        case ext (client_Update (client r) ingress) (Update ingress) s of
          (Inl err, s1) \<Rightarrow> ((Some err, ingress), s1)
        | (Inr ingress', s1) \<Rightarrow> ((None, ingress'), s1)
      else ((None, ingress), s))"

subsection \<open>ensureIngressDeleted (lines 315-335)\<close>

definition ensureIngressDeleted ::
  "'w reconciler \<Rightarrow> ingress_controller \<Rightarrow> dns_config \<Rightarrow> infrastructure \<Rightarrow> 'w run
     \<Rightarrow> error option \<times> 'w run" where
  "ensureIngressDeleted r ingress dnsConfig infraConfig s =
     (case ext (finalizeLoadBalancerService r ingress dnsConfig) (Method FinalizeLoadBalancerService) s of
        (Some err, s1) \<Rightarrow>
          (Some (Errorf ''failed to finalize load balancer service for %s: %v'' [ic_Name ingress] err), s1)
      | (None, s1) \<Rightarrow>
          (case ext (ensureRouterDeleted r ingress) (Method EnsureRouterDeleted) s1 of
             (Some err, s2) \<Rightarrow>
               (Some (Errorf ''failed to delete deployment for ingress %s: %v'' [ic_Name ingress] err), s2)
           | (None, s2) \<Rightarrow>
               if ContainsString (Finalizers ingress) IngressControllerFinalizer then
                 let updated = ingress;
                     updated = updated\<lparr>Finalizers := RemoveString (Finalizers updated) IngressControllerFinalizer\<rparr>
                 in
                 case ext (client_Update (client r) updated) (Update updated) s2 of
                   (Inl err, s3) \<Rightarrow>
                     (Some (Errorf ''failed to remove finalizer from ingresscontroller %s: %v''
                              [ic_Name ingress] err), s3)
                 | (Inr updated', s3) \<Rightarrow> (None, s3)
               else (None, s2)))"

subsection \<open>ensureRouterNamespace (lines 339-385)\<close>

text \<open>
  \<open>ensureRouterNamespace\<close> and \<open>ensureMetricsIntegration\<close> repeat one block for each
  object: get it; on an error that is not NotFound return the get's message; on
  NotFound create it, and return the create's message if that fails. \<open>getOrCreate\<close> is
  that block, its result being the error the enclosing function returns with, if any.
  \<open>created\<close> is the object handed to \<open>Create\<close> (the stats secret gets its owner
  references between the two calls). The names of the rendered objects that the
  messages interpolate are not known here and stay in the format.
\<close>

definition getOrCreate ::
  "'w reconciler \<Rightarrow> manifest \<Rightarrow> manifest \<Rightarrow> string \<Rightarrow> string \<Rightarrow> 'w run \<Rightarrow> error option \<times> 'w run" where
  "getOrCreate r obj created getFormat createFormat s =
     (case ext (client_Get_Manifest (client r) obj) (Get_Manifest obj) s of
        (None, s1) \<Rightarrow> (None, s1)
      | (Some err, s1) \<Rightarrow>
          if \<not> IsNotFound err then (Some (Errorf getFormat [] err), s1)
          else
            (case ext (client_Create (client r) created) (Create created) s1 of
               (Some err, s2) \<Rightarrow> (Some (Errorf createFormat [] err), s2)
             | (None, s2) \<Rightarrow> (None, s2)))"

definition ensureRouterNamespace :: "'w reconciler \<Rightarrow> 'w run \<Rightarrow> error option \<times> 'w run" where
  "ensureRouterNamespace r s =
     (case getOrCreate r RouterClusterRole RouterClusterRole
             ''failed to get router cluster role %s: %v''
             ''failed to create router cluster role %s: %v'' s of
        (Some err, s1) \<Rightarrow> (Some err, s1)
      | (None, s1) \<Rightarrow>
     (case getOrCreate r RouterNamespace RouterNamespace
             ''failed to get router namespace %q: %v''
             ''failed to create router namespace %s: %v'' s1 of
        (Some err, s2) \<Rightarrow> (Some err, s2)
      | (None, s2) \<Rightarrow>
     (case getOrCreate r RouterServiceAccount RouterServiceAccount
             ''failed to get router service account %s/%s: %v''
             ''failed to create router service account %s/%s: %v'' s2 of
        (Some err, s3) \<Rightarrow> (Some err, s3)
      | (None, s3) \<Rightarrow>
     (case getOrCreate r RouterClusterRoleBinding RouterClusterRoleBinding
             ''failed to get router cluster role binding %s: %v''
             ''failed to create router cluster role binding %s: %v'' s3 of
        (Some err, s4) \<Rightarrow> (Some err, s4)
      | (None, s4) \<Rightarrow> (None, s4)))))"

subsection \<open>ensureMetricsIntegration (lines 432-495)\<close>

definition ensureMetricsIntegration ::
  "'w reconciler \<Rightarrow> ingress_controller \<Rightarrow> service option \<Rightarrow> owner_reference \<Rightarrow> 'w run
     \<Rightarrow> error option \<times> 'w run" where
  "ensureMetricsIntegration r ci svc deploymentRef s =
     (case getOrCreate r (RouterStatsSecret (ic_Name ci) []) (RouterStatsSecret (ic_Name ci) [deploymentRef])
             ''failed to get router stats secret %s/%s, %v''
             ''failed to create router stats secret %s/%s: %v'' s of
        (Some err, s1) \<Rightarrow> (Some err, s1)
      | (None, s1) \<Rightarrow>
     (case getOrCreate r MetricsClusterRole MetricsClusterRole
             ''failed to get router metrics cluster role %s: %v''
             ''failed to create router metrics cluster role %s: %v'' s1 of
        (Some err, s2) \<Rightarrow> (Some err, s2)
      | (None, s2) \<Rightarrow>
     (case getOrCreate r MetricsClusterRoleBinding MetricsClusterRoleBinding
             ''failed to get router metrics cluster role binding %s: %v''
             ''failed to create router metrics cluster role binding %s: %v'' s2 of
        (Some err, s3) \<Rightarrow> (Some err, s3)
      | (None, s3) \<Rightarrow>
     (case getOrCreate r MetricsRole MetricsRole
             ''failed to get router metrics role %s: %v''
             ''failed to create router metrics role %s: %v'' s3 of
        (Some err, s4) \<Rightarrow> (Some err, s4)
      | (None, s4) \<Rightarrow>
     (case getOrCreate r MetricsRoleBinding MetricsRoleBinding
             ''failed to get router metrics role binding %s: %v''
             ''failed to create router metrics role binding %s: %v'' s4 of
        (Some err, s5) \<Rightarrow> (Some err, s5)
      | (None, s5) \<Rightarrow>
     (case ext (ensureServiceMonitor r ci svc deploymentRef) (Method EnsureServiceMonitor) s5 of
        (Some err, s6) \<Rightarrow> (Some (Errorf ''failed to ensure servicemonitor for %s: %v'' [ic_Name ci] err), s6)
      | (None, s6) \<Rightarrow> (None, s6)))))))"

subsection \<open>ensureIngressController (lines 388-429)\<close>

text \<open>
  \<open>lbService\<close> is handed to the status sync as \<open>ensureLoadBalancerService\<close> returned it,
  also when that call failed. A failed listing of the events is taken to leave the
  event list empty.
\<close>

definition ensureIngressController ::
  "'w reconciler \<Rightarrow> ingress_controller \<Rightarrow> dns_config \<Rightarrow> infrastructure \<Rightarrow> 'w run
     \<Rightarrow> error option \<times> 'w run" where
  "ensureIngressController r ci dnsConfig infraConfig s =
     (let errs = [] in
      case ext (ensureRouterDeployment r ci infraConfig) (\<lambda>x. Method EnsureRouterDeployment (err_of x)) s of
        (Inl err, s1) \<Rightarrow>
          (NewAggregate (errs @ [Errorf ''failed to ensure router deployment for %s: %v'' [ic_Name ci] err]), s1)
      | (Inr deployment, s1) \<Rightarrow>
          let deploymentRef =
                \<lparr>ref_APIVersion = ''apps/v1'', ref_Kind = ''Deployment'', ref_Name = dep_Name deployment,
                 ref_UID = dep_UID deployment, ref_Controller = Some True\<rparr>
          in
          case ext (ensureLoadBalancerService r ci deploymentRef infraConfig)
                   (\<lambda>x. Method EnsureLoadBalancerService (snd x)) s1 of
            ((lbService, lbErr), s2) \<Rightarrow>
          case (case lbErr of
                  Some err \<Rightarrow>
                    (errs @ [Errorf ''failed to ensure load balancer service for %s: %v'' [ic_Name ci] err], s2)
                | None \<Rightarrow>
                    (case lbService of
                       None \<Rightarrow> (errs, s2)
                     | Some lb \<Rightarrow>
                         (case ext (ensureDNS r ci lb dnsConfig) (Method EnsureDNS) s2 of
                            (Some err, s3) \<Rightarrow>
                              (errs @ [Errorf ''failed to ensure DNS for %s: %v'' [ic_Name ci] err], s3)
                          | (None, s3) \<Rightarrow> (errs, s3)))) of
            (errs, s3) \<Rightarrow>
          case (case ext (ensureInternalIngressControllerService r ci deploymentRef)
                         (\<lambda>x. Method EnsureInternalIngressControllerService (err_of x)) s3 of
                  (Inl err, s4) \<Rightarrow>
                    (errs @ [Errorf ''failed to create internal router service for ingresscontroller %s: %v''
                               [ic_Name ci] err], s4)
                | (Inr internalSvc, s4) \<Rightarrow>
                    (case ensureMetricsIntegration r ci internalSvc deploymentRef s4 of
                       (Some err, s5) \<Rightarrow>
                         (errs @ [Errorf ''failed to integrate metrics with openshift-monitoring for ingresscontroller %s: %v''
                                    [ic_Name ci] err], s5)
                     | (None, s5) \<Rightarrow> (errs, s5))) of
            (errs, s5) \<Rightarrow>
          case ext (cache_List_Events (cache r) ''openshift-ingress'') (List_Events ''openshift-ingress'') s5 of
            (listed, s6) \<Rightarrow>
          case (case listed of
                  Inl err \<Rightarrow>
                    (errs @ [Errorf ''failed to list events in namespace %q: %v'' [''openshift-ingress''] err], [])
                | Inr items \<Rightarrow> (errs, items)) of
            (errs, operandEvents_Items) \<Rightarrow>
          case ext (syncIngressControllerStatus r ci deployment lbService operandEvents_Items)
                   (Method SyncIngressControllerStatus) s6 of
            (Some err, s7) \<Rightarrow>
              (NewAggregate (errs @ [Errorf ''failed to sync ingresscontroller status: %v'' [] err]), s7)
          | (None, s7) \<Rightarrow> (NewAggregate errs, s7))"

subsection \<open>IsStatusDomainSet (lines 498-503)\<close>

definition IsStatusDomainSet :: "ingress_controller \<Rightarrow> bool" where
  "IsStatusDomainSet ingress = (if length (Status_Domain ingress) = 0 then False else True)"

subsection \<open>Reconcile (lines 115-190)\<close>

definition cluster :: namespaced_name where
  "cluster = \<lparr>nn_Namespace = [], nn_Name = ''cluster''\<rparr>"

text \<open>
  \<open>enforce\<close> is the block of \<open>Reconcile\<close> guarded by the three cluster configs being there
  (lines 157-180). It takes the error list so far and returns the extended one.
\<close>

definition enforce ::
  "'w reconciler \<Rightarrow> ingress_controller \<Rightarrow> dns_config \<Rightarrow> infrastructure \<Rightarrow> ingress_config
     \<Rightarrow> error list \<Rightarrow> 'w run \<Rightarrow> error list \<times> 'w run" where
  "enforce r ingress dnsConfig infraConfig ingressConfig errs s =
     (case invoke EnsureRouterNamespace ingress (ensureRouterNamespace r) s of
        (nsErr, s1) \<Rightarrow>
      let errs = (case nsErr of
                    Some err \<Rightarrow> errs @ [Errorf ''failed to ensure router namespace: %v'' [] err]
                  | None \<Rightarrow> errs)
      in
      case invoke_ic EnforceEffectiveIngressDomain (enforceEffectiveIngressDomain r ingress ingressConfig) s1 of
        ((Some err, ingress), s2) \<Rightarrow>
          (errs @ [Errorf ''failed to enforce the effective ingress domain for ingresscontroller %s: %v''
                     [ic_Name ingress] err], s2)
      | ((None, ingress), s2) \<Rightarrow>
          if IsStatusDomainSet ingress then
            (case invoke_ic EnforceEffectiveEndpointPublishingStrategy
                    (enforceEffectiveEndpointPublishingStrategy r ingress infraConfig) s2 of
               ((Some err, ingress), s3) \<Rightarrow>
                 (errs @ [Errorf ''failed to enforce the effective HA configuration for ingresscontroller %s: %v''
                            [ic_Name ingress] err], s3)
             | ((None, ingress), s3) \<Rightarrow>
                 if DeletionTimestamp ingress \<noteq> None then
                   (case invoke EnsureIngressDeleted ingress
                           (ensureIngressDeleted r ingress dnsConfig infraConfig) s3 of
                      (Some err, s4) \<Rightarrow> (errs @ [Errorf ''failed to ensure ingress deletion: %v'' [] err], s4)
                    | (None, s4) \<Rightarrow> (errs, s4))
                 else
                   (case invoke_ic EnforceIngressFinalizer (enforceIngressFinalizer r ingress) s3 of
                      ((Some err, ingress), s4) \<Rightarrow>
                        (errs @ [Errorf ''failed to enforce ingress finalizer %s/%s: %v''
                                   [ic_Namespace ingress, ic_Name ingress] err], s4)
                    | ((None, ingress), s4) \<Rightarrow>
                        (case invoke EnsureIngressController ingress
                                (ensureIngressController r ingress dnsConfig infraConfig) s4 of
                           (Some err, s5) \<Rightarrow>
                             (errs @ [Errorf ''failed to ensure ingresscontroller: %v'' [] err], s5)
                         | (None, s5) \<Rightarrow> (errs, s5))))
          else (errs, s2))"

definition Reconcile :: "'w reconciler \<Rightarrow> request \<Rightarrow> 'w run \<Rightarrow> (result \<times> error option) \<times> 'w run" where
  "Reconcile r request s =
     (let errs = [];
          result = \<lparr>Requeue = False, RequeueAfter = 0\<rparr>
      in
      case ext (client_Get_IngressController (client r) request) (Get_IngressController request) s of
        (got, s1) \<Rightarrow>
      case (case got of
              Inl err \<Rightarrow>
                (if IsNotFound err then errs
                 else errs @ [Errorf ''failed to get ingresscontroller %q: %v'' [request_String request] err],
                 None)
            | Inr ic \<Rightarrow> (errs, Some ic)) of
        (errs, ingress) \<Rightarrow>
      case (case ingress of
              None \<Rightarrow> (errs, s1)
            | Some ingress \<Rightarrow>
                (case ext (client_Get_DNS (client r) cluster) Get_DNS s1 of
                   (gotDNS, s2) \<Rightarrow>
                 case (case gotDNS of
                         Inl err \<Rightarrow> (errs @ [Errorf ''failed to get dns 'cluster': %v'' [] err], None)
                       | Inr c \<Rightarrow> (errs, Some c)) of
                   (errs, dnsConfig) \<Rightarrow>
                 case ext (client_Get_Infrastructure (client r) cluster) Get_Infrastructure s2 of
                   (gotInfra, s3) \<Rightarrow>
                 case (case gotInfra of
                         Inl err \<Rightarrow> (errs @ [Errorf ''failed to get infrastructure 'cluster': %v'' [] err], None)
                       | Inr c \<Rightarrow> (errs, Some c)) of
                   (errs, infraConfig) \<Rightarrow>
                 case ext (client_Get_Ingress (client r) cluster) Get_Ingress s3 of
                   (gotIngress, s4) \<Rightarrow>
                 case (case gotIngress of
                         Inl err \<Rightarrow> (errs @ [Errorf ''failed to get ingress 'cluster': %v'' [] err], None)
                       | Inr c \<Rightarrow> (errs, Some c)) of
                   (errs, ingressConfig) \<Rightarrow>
                 (case (dnsConfig, infraConfig, ingressConfig) of
                    (Some dnsConfig, Some infraConfig, Some ingressConfig) \<Rightarrow>
                      enforce r ingress dnsConfig infraConfig ingressConfig errs s4
                  | _ \<Rightarrow> (errs, s4)))) of
        (errs, s5) \<Rightarrow>
      case ext (syncOperatorStatus r) (Method SyncOperatorStatus) s5 of
        (Some err, s6) \<Rightarrow>
          ((result, NewAggregate (errs @ [Errorf ''failed to sync operator status: %v'' [] err])), s6)
      | (None, s6) \<Rightarrow> ((result, NewAggregate errs), s6))"

section \<open>Reading the log\<close>

text \<open>
  \<open>pass\<close> is the log of one \<open>Reconcile\<close> started on an empty log, \<open>outcome\<close> what that
  \<open>Reconcile\<close> returns. \<open>tag_of\<close> is a logged call without its arguments and outcome.
\<close>

definition start :: "'w \<Rightarrow> 'w run" where
  "start w = \<lparr>world = w, trace = []\<rparr>"

definition pass :: "'w reconciler \<Rightarrow> request \<Rightarrow> 'w \<Rightarrow> call list" where
  "pass r request w = trace (snd (Reconcile r request (start w)))"

definition outcome :: "'w reconciler \<Rightarrow> request \<Rightarrow> 'w \<Rightarrow> result \<times> error option" where
  "outcome r request w = fst (Reconcile r request (start w))"

datatype tag =
    T_Get_IngressController
  | T_Get_DNS
  | T_Get_Infrastructure
  | T_Get_Ingress
  | T_Get_Manifest
  | T_Create
  | T_Update
  | T_Status_Update
  | T_List_IngressControllers
  | T_List_Events
  | T_Method collaborator
  | T_Enter step
  | T_Leave step

fun tag_of :: "call \<Rightarrow> tag" where
  "tag_of (Get_IngressController key x) = T_Get_IngressController"
| "tag_of (Get_DNS x) = T_Get_DNS"
| "tag_of (Get_Infrastructure x) = T_Get_Infrastructure"
| "tag_of (Get_Ingress x) = T_Get_Ingress"
| "tag_of (Get_Manifest m x) = T_Get_Manifest"
| "tag_of (Create m x) = T_Create"
| "tag_of (Update ic x) = T_Update"
| "tag_of (Status_Update ic x) = T_Status_Update"
| "tag_of (List_IngressControllers ns x) = T_List_IngressControllers"
| "tag_of (List_Events ns x) = T_List_Events"
| "tag_of (Method m x) = T_Method m"
| "tag_of (Enter st) = T_Enter st"
| "tag_of (Leave st x ic) = T_Leave st"

text \<open>
  The two write-once fields in the log of a pass. \<open>published_kept cur cs\<close> walks the log
  \<open>cs\<close>, \<open>cur\<close> being the version of the ingress controller that the client returned
  last (a successful \<open>Get\<close>): every object that is sent in a status update or an update
  must carry the \<open>Status.Domain\<close> of that version if it is non-empty, and its
  \<open>Status.EndpointPublishingStrategy\<close> if it is non-nil. \<open>latest\<close> is the version returned
  last. The writes that the methods of other files make are not in the log.
\<close>

definition keeps :: "ingress_controller option \<Rightarrow> ingress_controller \<Rightarrow> bool" where
  "keeps cur obj =
     (case cur of
        None \<Rightarrow> True
      | Some ic \<Rightarrow>
          (Status_Domain ic = [] \<or> Status_Domain obj = Status_Domain ic)
          \<and> (Status_EndpointPublishingStrategy ic = None
             \<or> Status_EndpointPublishingStrategy obj = Status_EndpointPublishingStrategy ic))"

fun published_kept :: "ingress_controller option \<Rightarrow> call list \<Rightarrow> bool" where
  "published_kept cur [] = True"
| "published_kept cur (Get_IngressController key (Inr ic) # cs) = published_kept (Some ic) cs"
| "published_kept cur (Status_Update obj x # cs) = (keeps cur obj \<and> published_kept cur cs)"
| "published_kept cur (Update obj x # cs) = (keeps cur obj \<and> published_kept cur cs)"
| "published_kept cur (c # cs) = published_kept cur cs"

fun latest :: "ingress_controller option \<Rightarrow> call list \<Rightarrow> ingress_controller option" where
  "latest cur [] = cur"
| "latest cur (Get_IngressController key (Inr ic) # cs) = latest (Some ic) cs"
| "latest cur (c # cs) = latest cur cs"

text \<open>The error lists that the fetches of the cluster configs and the final status sync
  contribute to the combined error.\<close>

definition config_errs :: "error + dns_config \<Rightarrow> error + infrastructure \<Rightarrow> error + ingress_config \<Rightarrow> error list" where
  "config_errs d i g =
     (case d of Inl e \<Rightarrow> [Errorf ''failed to get dns 'cluster': %v'' [] e] | Inr c \<Rightarrow> [])
     @ (case i of Inl e \<Rightarrow> [Errorf ''failed to get infrastructure 'cluster': %v'' [] e] | Inr c \<Rightarrow> [])
     @ (case g of Inl e \<Rightarrow> [Errorf ''failed to get ingress 'cluster': %v'' [] e] | Inr c \<Rightarrow> [])"

definition sync_errs :: "error option \<Rightarrow> error list" where
  "sync_errs serr = (case serr of Some x \<Rightarrow> [Errorf ''failed to sync operator status: %v'' [] x] | None \<Rightarrow> [])"

text \<open>
  \<open>grows F s s'\<close>: the log of \<open>s'\<close> is the log of \<open>s\<close> followed by calls whose tags are all
  in \<open>F\<close>. It bounds what a method may add to the log.
\<close>

definition grows :: "tag set \<Rightarrow> 'w run \<Rightarrow> 'w run \<Rightarrow> bool" where
  "grows F s s' = (\<exists>evs. trace s' = trace s @ evs \<and> (\<forall>c\<in>set evs. tag_of c \<in> F))"

text \<open>
  \<open>settled ic s\<close>: the log of \<open>s\<close> keeps the published fields, and \<open>ic\<close> is the version read
  last. \<open>ends_sync s s'\<close>: the log of \<open>s'\<close> extends that of \<open>s\<close> and ends with the sync of the
  ingress controller's status.
\<close>

definition settled :: "ingress_controller \<Rightarrow> 'w run \<Rightarrow> bool" where
  "settled ic s = (published_kept None (trace s) \<and> latest None (trace s) = Some ic)"

definition ends_sync :: "'w run \<Rightarrow> 'w run \<Rightarrow> bool" where
  "ends_sync s s' = (\<exists>evs x. trace s' = trace s @ evs @ [Method SyncIngressControllerStatus x])"

section \<open>A fake client for concrete runs\<close>

text \<open>
  A small object store in the manner of a fake client: it holds one ingress
  controller, the list its cache hands out (which may lag behind), the calls that are
  to fail, and a clock. A status update persists the status fields only.
\<close>

record fake_world =
  stored :: "ingress_controller option"
  cached :: "ingress_controller list"
  failing :: "tag list"
  clock :: time

definition fails :: "tag \<Rightarrow> fake_world \<Rightarrow> bool" where
  "fails t w = (t \<in> set (failing w))"

definition boom :: error where
  "boom = StatusError ''injected''"

definition fake_method :: "collaborator \<Rightarrow> fake_world \<Rightarrow> error option \<times> fake_world" where
  "fake_method m w = (if fails (T_Method m) w then Some boom else None, w)"

definition fake_client :: "fake_world client" where
  "fake_client =
     \<lparr>client_Get_IngressController = (\<lambda>key w.
        (if fails T_Get_IngressController w then Inl boom
         else case stored w of None \<Rightarrow> Inl (StatusNotFound (nn_Name key)) | Some ic \<Rightarrow> Inr ic, w)),
      client_Get_DNS = (\<lambda>key w.
        (if fails T_Get_DNS w then Inl boom else Inr \<lparr>dns_Spec_BaseDomain = ''example.com''\<rparr>, w)),
      client_Get_Infrastructure = (\<lambda>key w.
        (if fails T_Get_Infrastructure w then Inl boom else Inr \<lparr>infra_Status_Platform = AWSPlatformType\<rparr>, w)),
      client_Get_Ingress = (\<lambda>key w.
        (if fails T_Get_Ingress w then Inl boom else Inr \<lparr>ingress_Spec_Domain = ''apps.example.com''\<rparr>, w)),
      client_Get_Manifest = (\<lambda>m w. (if fails T_Get_Manifest w then Some boom else None, w)),
      client_Create = (\<lambda>m w. (if fails T_Create w then Some boom else None, w)),
      client_Update = (\<lambda>obj w.
        if fails T_Update w then (Inl boom, w) else (Inr obj, w\<lparr>stored := Some obj\<rparr>)),
      client_Status_Update = (\<lambda>obj w.
        if fails T_Status_Update w then (Inl boom, w)
        else case stored w of
               None \<Rightarrow> (Inl (StatusNotFound (ic_Name obj)), w)
             | Some cur \<Rightarrow>
                 let new = cur\<lparr>Status_Domain := Status_Domain obj,
                               Status_EndpointPublishingStrategy := Status_EndpointPublishingStrategy obj,
                               Status_Conditions := Status_Conditions obj\<rparr>
                 in (Inr new, w\<lparr>stored := Some new\<rparr>))\<rparr>"

definition fake_cache :: "fake_world cache" where
  "fake_cache =
     \<lparr>cache_List_IngressControllers = (\<lambda>ns w.
        (if fails T_List_IngressControllers w then Inl boom else Inr (cached w), w)),
      cache_List_Events = (\<lambda>ns w. (if fails T_List_Events w then Inl boom else Inr [], w))\<rparr>"

definition fake :: "fake_world reconciler" where
  "fake =
     \<lparr>Namespace = ''openshift-ingress-operator'',
      client = fake_client,
      cache = fake_cache,
      Now = clock,
      finalizeLoadBalancerService = (\<lambda>ic dns. fake_method FinalizeLoadBalancerService),
      ensureRouterDeleted = (\<lambda>ic. fake_method EnsureRouterDeleted),
      ensureRouterDeployment = (\<lambda>ic infra w.
        (if fails (T_Method EnsureRouterDeployment) w then Inl boom
         else Inr \<lparr>dep_Name = ''router-'' @ ic_Name ic, dep_UID = ''uid-1''\<rparr>, w)),
      ensureLoadBalancerService = (\<lambda>ic ref infra w.
        (if fails (T_Method EnsureLoadBalancerService) w then (None, Some boom)
         else (Some \<lparr>svc_Name = ''router-'' @ ic_Name ic\<rparr>, None), w)),
      ensureDNS = (\<lambda>ic svc dns. fake_method EnsureDNS),
      ensureInternalIngressControllerService = (\<lambda>ic ref w.
        (if fails (T_Method EnsureInternalIngressControllerService) w then Inl boom
         else Inr (Some \<lparr>svc_Name = ''router-internal-'' @ ic_Name ic\<rparr>), w)),
      ensureServiceMonitor = (\<lambda>ic svc ref. fake_method EnsureServiceMonitor),
      syncIngressControllerStatus = (\<lambda>ic dep lb evs. fake_method SyncIngressControllerStatus),
      syncOperatorStatus = fake_method SyncOperatorStatus\<rparr>"

text \<open>The ingress controller \<open>edge\<close>, before and after its status is published, and when
  it is being deleted.\<close>

definition edge :: ingress_controller where
  "edge =
     \<lparr>ic_Namespace = ''openshift-ingress-operator'', ic_Name = ''edge'', Finalizers = [],
      DeletionTimestamp = None, Spec_Domain = [], Spec_EndpointPublishingStrategy = None,
      Status_Domain = [], Status_EndpointPublishingStrategy = None, Status_Conditions = []\<rparr>"

definition edge_published :: ingress_controller where
  "edge_published =
     edge\<lparr>Finalizers := [IngressControllerFinalizer],
          Spec_Domain := ''other.example.com'',
          Status_Domain := ''apps.example.com'',
          Status_EndpointPublishingStrategy := Some \<lparr>eps_Type = LoadBalancerServiceStrategyType\<rparr>\<rparr>"

definition edge_deleting :: ingress_controller where
  "edge_deleting = edge_published\<lparr>DeletionTimestamp := Some 42\<rparr>"

definition edge_request :: request where
  "edge_request = \<lparr>nn_Namespace = ''openshift-ingress-operator'', nn_Name = ''edge''\<rparr>"

definition holding :: "ingress_controller option \<Rightarrow> ingress_controller list \<Rightarrow> tag list \<Rightarrow> fake_world" where
  "holding ic items bad = \<lparr>stored = ic, cached = items, failing = bad, clock = 100\<rparr>"

section \<open>What a method adds to the log\<close>

lemma grows_refl: "grows F s s"
  by (simp add: grows_def)

lemma grows_trans: "grows F s s1 \<Longrightarrow> grows F s1 s' \<Longrightarrow> grows F s s'"
  by (fastforce simp: grows_def)

lemma grows_ext: "ext g ev s = (a, s1) \<Longrightarrow> tag_of (ev a) \<in> F \<Longrightarrow> grows F s1 s' \<Longrightarrow> grows F s s'"
  by (auto simp: ext_def grows_def split: prod.splits)

lemma grows_sub: "grows F s s1 \<Longrightarrow> F \<subseteq> G \<Longrightarrow> grows G s1 s' \<Longrightarrow> grows G s s'"
  by (fastforce simp: grows_def)

lemma grows_mem: "grows F s s' \<Longrightarrow> tag_of c \<notin> F \<Longrightarrow> (c \<in> set (trace s')) = (c \<in> set (trace s))"
  by (auto simp: grows_def)

lemma getOrCreate_grows:
  "getOrCreate r obj created gf cf s = (e, s') \<Longrightarrow> grows {T_Get_Manifest, T_Create} s s'"
  by (auto simp: getOrCreate_def split: prod.splits option.splits if_splits
      elim!: grows_ext intro!: grows_refl)

lemmas getOrCreate_step = grows_sub[OF getOrCreate_grows]

lemma ensureRouterNamespace_grows:
  "ensureRouterNamespace r s = (e, s') \<Longrightarrow> grows {T_Get_Manifest, T_Create} s s'"
  unfolding ensureRouterNamespace_def
  by (auto split: prod.splits option.splits elim!: getOrCreate_step intro!: grows_refl)

lemma isDomainUnique_grows:
  "isDomainUnique r d s = (x, s') \<Longrightarrow> grows {T_List_IngressControllers} s s'"
  by (auto simp: isDomainUnique_def split: prod.splits sum.splits elim!: grows_ext intro!: grows_refl)

lemmas isDomainUnique_step = grows_sub[OF isDomainUnique_grows]

lemma enforceEffectiveIngressDomain_grows:
  "enforceEffectiveIngressDomain r ic cfg s = (x, s') \<Longrightarrow>
   grows {T_List_IngressControllers, T_Status_Update, T_Get_IngressController} s s'"
  unfolding enforceEffectiveIngressDomain_def Let_def
  by (auto split: prod.splits sum.splits option.splits if_splits
      elim!: isDomainUnique_step grows_ext intro!: grows_refl)

lemma enforceEffectiveEndpointPublishingStrategy_grows:
  "enforceEffectiveEndpointPublishingStrategy r ic infra s = (x, s') \<Longrightarrow>
   grows {T_Status_Update, T_Get_IngressController} s s'"
  unfolding enforceEffectiveEndpointPublishingStrategy_def Let_def
  by (auto split: prod.splits sum.splits option.splits if_splits elim!: grows_ext intro!: grows_refl)

lemma enforceIngressFinalizer_grows:
  "enforceIngressFinalizer r ic s = (x, s') \<Longrightarrow> grows {T_Update} s s'"
  unfolding enforceIngressFinalizer_def Let_def
  by (auto split: prod.splits sum.splits option.splits if_splits elim!: grows_ext intro!: grows_refl)

lemma ensureIngressDeleted_grows:
  "ensureIngressDeleted r ic dns infra s = (x, s') \<Longrightarrow>
   grows {T_Method FinalizeLoadBalancerService, T_Method EnsureRouterDeleted, T_Update} s s'"
  unfolding ensureIngressDeleted_def Let_def
  by (auto split: prod.splits sum.splits option.splits if_splits elim!: grows_ext intro!: grows_refl)

lemma ensureMetricsIntegration_grows:
  "ensureMetricsIntegration r ci svc ref s = (x, s') \<Longrightarrow>
   grows {T_Get_Manifest, T_Create, T_Method EnsureServiceMonitor} s s'"
  unfolding ensureMetricsIntegration_def
  by (auto split: prod.splits option.splits elim!: getOrCreate_step grows_ext intro!: grows_refl)

lemmas ensureMetricsIntegration_step = grows_sub[OF ensureMetricsIntegration_grows]

lemma grows_seq:
  "grows F s (snd X) \<Longrightarrow> (\<And>a s1. grows F s1 (snd (B a s1))) \<Longrightarrow>
   grows F s (snd (case X of (a, s1) \<Rightarrow> B a s1))"
proof (cases X)
  case (Pair a s1)
  assume "grows F s (snd X)" and "\<And>a s1. grows F s1 (snd (B a s1))"
  then have "grows F s s1" and "grows F s1 (snd (B a s1))"
    using Pair by simp_all
  then show ?thesis
    using Pair by (simp add: grows_trans)
qed

lemma grows_seq2:
  "grows F s (snd X) \<Longrightarrow> (\<And>a b s1. grows F s1 (snd (B a b s1))) \<Longrightarrow>
   grows F s (snd (case X of ((a, b), s1) \<Rightarrow> B a b s1))"
proof (cases X)
  case (Pair ab s1)
  obtain a b where ab: "ab = (a, b)" by (cases ab)
  assume "grows F s (snd X)" and "\<And>a b s1. grows F s1 (snd (B a b s1))"
  then have "grows F s s1" and "grows F s1 (snd (B a b s1))"
    using Pair by simp_all
  then show ?thesis
    using Pair ab by (simp add: grows_trans)
qed

lemma grows_pure:
  "(\<And>a b. grows F s (snd (B a b))) \<Longrightarrow> grows F s (snd (case X of (a, b) \<Rightarrow> B a b))"
  by (cases X) simp

lemma grows_ext_snd: "(\<And>a. tag_of (ev a) \<in> F) \<Longrightarrow> grows F s (snd (ext g ev s))"
  by (auto simp: ext_def grows_def split: prod.splits)

lemma grows_here: "grows F s (snd (v, s))"
  by (simp add: grows_def)

lemma ensureMetricsIntegration_snd:
  "{T_Get_Manifest, T_Create, T_Method EnsureServiceMonitor} \<subseteq> F \<Longrightarrow>
   grows F s (snd (ensureMetricsIntegration r ci svc ref s))"
  using ensureMetricsIntegration_grows[of r ci svc ref s]
  by (cases "ensureMetricsIntegration r ci svc ref s") (fastforce simp: grows_def)

lemma ensureIngressController_grows:
  "grows {T_Method EnsureRouterDeployment, T_Method EnsureLoadBalancerService, T_Method EnsureDNS,
          T_Method EnsureInternalIngressControllerService, T_Get_Manifest, T_Create,
          T_Method EnsureServiceMonitor, T_List_Events, T_Method SyncIngressControllerStatus} s
      (snd (ensureIngressController r ci dns infra s))"
  unfolding ensureIngressController_def Let_def
  by ((rule grows_seq2 | rule grows_seq | rule grows_pure | rule grows_ext_snd | rule grows_here
        | rule ensureMetricsIntegration_snd | rule conjI | rule allI | rule impI
        | split sum.split option.split | simp)+)

lemma ensureIngressController_grows':
  "ensureIngressController r ci dns infra s = (x, s') \<Longrightarrow>
   grows {T_Method EnsureRouterDeployment, T_Method EnsureLoadBalancerService, T_Method EnsureDNS,
          T_Method EnsureInternalIngressControllerService, T_Get_Manifest, T_Create,
          T_Method EnsureServiceMonitor, T_List_Events, T_Method SyncIngressControllerStatus} s s'"
  using ensureIngressController_grows[of s r ci dns infra] by simp

lemmas mems =
  grows_mem[OF ensureRouterNamespace_grows]
  grows_mem[OF enforceEffectiveIngressDomain_grows]
  grows_mem[OF enforceEffectiveEndpointPublishingStrategy_grows]
  grows_mem[OF enforceIngressFinalizer_grows]
  grows_mem[OF ensureIngressDeleted_grows]
  grows_mem[OF ensureIngressController_grows']

lemma trace_emit: "trace (emit c s) = trace s @ [c]"
  by (simp add: emit_def)

lemma enforce_cases [case_names DomainFailed DomainUnset StrategyFailed Deleting FinalizerFailed Ensuring]:
  assumes DomainFailed: "\<And>nsErr s1 e ic1 s2.
      \<lbrakk>ensureRouterNamespace r (emit (Enter EnsureRouterNamespace) s) = (nsErr, s1);
       enforceEffectiveIngressDomain r ic cfg
         (emit (Enter EnforceEffectiveIngressDomain) (emit (Leave EnsureRouterNamespace nsErr (Some ic)) s1))
         = ((Some e, ic1), s2);
       snd (enforce r ic dns infra cfg errs s) = emit (Leave EnforceEffectiveIngressDomain (Some e) (Some ic1)) s2\<rbrakk>
      \<Longrightarrow> P"
    and DomainUnset: "\<And>nsErr s1 ic1 s2.
      \<lbrakk>ensureRouterNamespace r (emit (Enter EnsureRouterNamespace) s) = (nsErr, s1);
       enforceEffectiveIngressDomain r ic cfg
         (emit (Enter EnforceEffectiveIngressDomain) (emit (Leave EnsureRouterNamespace nsErr (Some ic)) s1))
         = ((None, ic1), s2);
       Status_Domain ic1 = [];
       snd (enforce r ic dns infra cfg errs s) = emit (Leave EnforceEffectiveIngressDomain None (Some ic1)) s2\<rbrakk>
      \<Longrightarrow> P"
    and StrategyFailed: "\<And>nsErr s1 ic1 s2 e ic2 s3.
      \<lbrakk>ensureRouterNamespace r (emit (Enter EnsureRouterNamespace) s) = (nsErr, s1);
       enforceEffectiveIngressDomain r ic cfg
         (emit (Enter EnforceEffectiveIngressDomain) (emit (Leave EnsureRouterNamespace nsErr (Some ic)) s1))
         = ((None, ic1), s2);
       Status_Domain ic1 \<noteq> [];
       enforceEffectiveEndpointPublishingStrategy r ic1 infra
         (emit (Enter EnforceEffectiveEndpointPublishingStrategy)
            (emit (Leave EnforceEffectiveIngressDomain None (Some ic1)) s2))
         = ((Some e, ic2), s3);
       snd (enforce r ic dns infra cfg errs s)
         = emit (Leave EnforceEffectiveEndpointPublishingStrategy (Some e) (Some ic2)) s3\<rbrakk>
      \<Longrightarrow> P"
    and Deleting: "\<And>nsErr s1 ic1 s2 ic2 s3 delErr s4.
      \<lbrakk>ensureRouterNamespace r (emit (Enter EnsureRouterNamespace) s) = (nsErr, s1);
       enforceEffectiveIngressDomain r ic cfg
         (emit (Enter EnforceEffectiveIngressDomain) (emit (Leave EnsureRouterNamespace nsErr (Some ic)) s1))
         = ((None, ic1), s2);
       Status_Domain ic1 \<noteq> [];
       enforceEffectiveEndpointPublishingStrategy r ic1 infra
         (emit (Enter EnforceEffectiveEndpointPublishingStrategy)
            (emit (Leave EnforceEffectiveIngressDomain None (Some ic1)) s2))
         = ((None, ic2), s3);
       DeletionTimestamp ic2 \<noteq> None;
       ensureIngressDeleted r ic2 dns infra
         (emit (Enter EnsureIngressDeleted)
            (emit (Leave EnforceEffectiveEndpointPublishingStrategy None (Some ic2)) s3))
         = (delErr, s4);
       snd (enforce r ic dns infra cfg errs s) = emit (Leave EnsureIngressDeleted delErr (Some ic2)) s4\<rbrakk>
      \<Longrightarrow> P"
    and FinalizerFailed: "\<And>nsErr s1 ic1 s2 ic2 s3 e ic3 s4.
      \<lbrakk>ensureRouterNamespace r (emit (Enter EnsureRouterNamespace) s) = (nsErr, s1);
       enforceEffectiveIngressDomain r ic cfg
         (emit (Enter EnforceEffectiveIngressDomain) (emit (Leave EnsureRouterNamespace nsErr (Some ic)) s1))
         = ((None, ic1), s2);
       Status_Domain ic1 \<noteq> [];
       enforceEffectiveEndpointPublishingStrategy r ic1 infra
         (emit (Enter EnforceEffectiveEndpointPublishingStrategy)
            (emit (Leave EnforceEffectiveIngressDomain None (Some ic1)) s2))
         = ((None, ic2), s3);
       DeletionTimestamp ic2 = None;
       enforceIngressFinalizer r ic2
         (emit (Enter EnforceIngressFinalizer)
            (emit (Leave EnforceEffectiveEndpointPublishingStrategy None (Some ic2)) s3))
         = ((Some e, ic3), s4);
       snd (enforce r ic dns infra cfg errs s) = emit (Leave EnforceIngressFinalizer (Some e) (Some ic3)) s4\<rbrakk>
      \<Longrightarrow> P"
    and Ensuring: "\<And>nsErr s1 ic1 s2 ic2 s3 ic3 s4 cErr s5.
      \<lbrakk>ensureRouterNamespace r (emit (Enter EnsureRouterNamespace) s) = (nsErr, s1);
       enforceEffectiveIngressDomain r ic cfg
         (emit (Enter EnforceEffectiveIngressDomain) (emit (Leave EnsureRouterNamespace nsErr (Some ic)) s1))
         = ((None, ic1), s2);
       Status_Domain ic1 \<noteq> [];
       enforceEffectiveEndpointPublishingStrategy r ic1 infra
         (emit (Enter EnforceEffectiveEndpointPublishingStrategy)
            (emit (Leave EnforceEffectiveIngressDomain None (Some ic1)) s2))
         = ((None, ic2), s3);
       DeletionTimestamp ic2 = None;
       enforceIngressFinalizer r ic2
         (emit (Enter EnforceIngressFinalizer)
            (emit (Leave EnforceEffectiveEndpointPublishingStrategy None (Some ic2)) s3))
         = ((None, ic3), s4);
       ensureIngressController r ic3 dns infra
         (emit (Enter EnsureIngressController) (emit (Leave EnforceIngressFinalizer None (Some ic3)) s4))
         = (cErr, s5);
       snd (enforce r ic dns infra cfg errs s) = emit (Leave EnsureIngressController cErr (Some ic3)) s5\<rbrakk>
      \<Longrightarrow> P"
  shows P
proof -
  obtain nsErr s1 where ns: "ensureRouterNamespace r (emit (Enter EnsureRouterNamespace) s) = (nsErr, s1)"
    by (cases "ensureRouterNamespace r (emit (Enter EnsureRouterNamespace) s)")
  obtain dErr ic1 s2 where d: "enforceEffectiveIngressDomain r ic cfg
         (emit (Enter EnforceEffectiveIngressDomain) (emit (Leave EnsureRouterNamespace nsErr (Some ic)) s1))
         = ((dErr, ic1), s2)"
    by (metis prod.exhaust)
  note defs = enforce_def invoke_def invoke_ic_def IsStatusDomainSet_def
  show P
  proof (cases dErr)
    case (Some e)
    with ns d show P
      by (intro DomainFailed[of nsErr s1 e ic1 s2]) (simp_all add: defs)
  next
    case dOk: None
    show P
    proof (cases "Status_Domain ic1 = []")
      case True
      with ns d dOk show P
        by (intro DomainUnset[of nsErr s1 ic1 s2]) (simp_all add: defs)
    next
      case dSet: False
      obtain eErr ic2 s3 where e: "enforceEffectiveEndpointPublishingStrategy r ic1 infra
         (emit (Enter EnforceEffectiveEndpointPublishingStrategy)
            (emit (Leave EnforceEffectiveIngressDomain None (Some ic1)) s2))
         = ((eErr, ic2), s3)"
        by (metis prod.exhaust)
      show P
      proof (cases eErr)
        case (Some x)
        with ns d dOk dSet e show P
          by (intro StrategyFailed[of nsErr s1 ic1 s2 x ic2 s3]) (simp_all add: defs)
      next
        case eOk: None
        show P
        proof (cases "DeletionTimestamp ic2")
          case (Some t)
          obtain delErr s4 where del: "ensureIngressDeleted r ic2 dns infra
             (emit (Enter EnsureIngressDeleted)
                (emit (Leave EnforceEffectiveEndpointPublishingStrategy None (Some ic2)) s3))
             = (delErr, s4)"
            by (metis prod.exhaust)
          from ns d dOk dSet e eOk Some del show P
            by (intro Deleting[of nsErr s1 ic1 s2 ic2 s3 delErr s4])
               (simp_all add: defs split: option.split)
        next
          case live: None
          obtain fErr ic3 s4 where f: "enforceIngressFinalizer r ic2
             (emit (Enter EnforceIngressFinalizer)
                (emit (Leave EnforceEffectiveEndpointPublishingStrategy None (Some ic2)) s3))
             = ((fErr, ic3), s4)"
            by (metis prod.exhaust)
          show P
          proof (cases fErr)
            case (Some x)
            with ns d dOk dSet e eOk live f show P
              by (intro FinalizerFailed[of nsErr s1 ic1 s2 ic2 s3 x ic3 s4]) (simp_all add: defs)
          next
            case fOk: None
            obtain cErr s5 where c: "ensureIngressController r ic3 dns infra
               (emit (Enter EnsureIngressController) (emit (Leave EnforceIngressFinalizer None (Some ic3)) s4))
               = (cErr, s5)"
              by (metis prod.exhaust)
            from ns d dOk dSet e eOk live f fOk c show P
              by (intro Ensuring[of nsErr s1 ic1 s2 ic2 s3 ic3 s4 cErr s5])
                 (simp_all add: defs split: option.split)
          qed
        qed
      qed
    qed
  qed
qed

subsection \<open>Symbolic runs of Reconcile\<close>

lemma Reconcile_absent:
  assumes "client_Get_IngressController (client r) request w = (Inl e, w1)"
    and "syncOperatorStatus r w1 = (serr, w2)"
  shows "Reconcile r request (start w) =
    ((\<lparr>Requeue = False, RequeueAfter = 0\<rparr>,
      NewAggregate ((if IsNotFound e then []
                     else [Errorf ''failed to get ingresscontroller %q: %v'' [request_String request] e])
                    @ (case serr of Some x \<Rightarrow> [Errorf ''failed to sync operator status: %v'' [] x] | None \<Rightarrow> []))),
     \<lparr>world = w2, trace = [Get_IngressController request (Inl e), Method SyncOperatorStatus serr]\<rparr>)"
  using assms by (cases serr) (simp_all add: Reconcile_def ext_def start_def)

lemma Reconcile_deferred:
  assumes "client_Get_IngressController (client r) request w = (Inr ic, w1)"
    and "client_Get_DNS (client r) cluster w1 = (d, w2)"
    and "client_Get_Infrastructure (client r) cluster w2 = (i, w3)"
    and "client_Get_Ingress (client r) cluster w3 = (g, w4)"
    and "isl d \<or> isl i \<or> isl g"
    and "syncOperatorStatus r w4 = (serr, w5)"
  shows "Reconcile r request (start w) =
    ((\<lparr>Requeue = False, RequeueAfter = 0\<rparr>,
      NewAggregate (config_errs d i g
                    @ (case serr of Some x \<Rightarrow> [Errorf ''failed to sync operator status: %v'' [] x] | None \<Rightarrow> []))),
     \<lparr>world = w5,
      trace = [Get_IngressController request (Inr ic), Get_DNS d, Get_Infrastructure i, Get_Ingress g,
               Method SyncOperatorStatus serr]\<rparr>)"
  using assms
  by (cases serr; cases d; cases i; cases g)
     (simp_all add: Reconcile_def ext_def start_def config_errs_def)

lemma Reconcile_enforced:
  assumes "client_Get_IngressController (client r) request w = (Inr ic, w1)"
    and "client_Get_DNS (client r) cluster w1 = (Inr dns, w2)"
    and "client_Get_Infrastructure (client r) cluster w2 = (Inr infra, w3)"
    and "client_Get_Ingress (client r) cluster w3 = (Inr cfg, w4)"
    and "enforce r ic dns infra cfg []
           \<lparr>world = w4,
            trace = [Get_IngressController request (Inr ic), Get_DNS (Inr dns), Get_Infrastructure (Inr infra),
                     Get_Ingress (Inr cfg)]\<rparr> = (errs, s5)"
    and "syncOperatorStatus r (world s5) = (serr, w6)"
  shows "Reconcile r request (start w) =
    ((\<lparr>Requeue = False, RequeueAfter = 0\<rparr>,
      NewAggregate (errs
                    @ (case serr of Some x \<Rightarrow> [Errorf ''failed to sync operator status: %v'' [] x] | None \<Rightarrow> []))),
     \<lparr>world = w6, trace = trace s5 @ [Method SyncOperatorStatus serr]\<rparr>)"
  using assms
  by (cases serr) (simp_all add: Reconcile_def ext_def start_def)

lemma Reconcile_cases [case_names Absent Deferred Enforced]:
  assumes Absent: "\<And>e w1 serr w2.
      \<lbrakk>client_Get_IngressController (client r) request w = (Inl e, w1);
       syncOperatorStatus r w1 = (serr, w2);
       outcome r request w =
         (\<lparr>Requeue = False, RequeueAfter = 0\<rparr>,
          NewAggregate ((if IsNotFound e then []
                         else [Errorf ''failed to get ingresscontroller %q: %v'' [request_String request] e])
                        @ sync_errs serr));
       pass r request w = [Get_IngressController request (Inl e), Method SyncOperatorStatus serr]\<rbrakk>
      \<Longrightarrow> P"
    and Deferred: "\<And>ic w1 d w2 i w3 g w4 serr w5.
      \<lbrakk>client_Get_IngressController (client r) request w = (Inr ic, w1);
       client_Get_DNS (client r) cluster w1 = (d, w2);
       client_Get_Infrastructure (client r) cluster w2 = (i, w3);
       client_Get_Ingress (client r) cluster w3 = (g, w4);
       isl d \<or> isl i \<or> isl g;
       syncOperatorStatus r w4 = (serr, w5);
       outcome r request w =
         (\<lparr>Requeue = False, RequeueAfter = 0\<rparr>, NewAggregate (config_errs d i g @ sync_errs serr));
       pass r request w =
         [Get_IngressController request (Inr ic), Get_DNS d, Get_Infrastructure i, Get_Ingress g,
          Method SyncOperatorStatus serr]\<rbrakk>
      \<Longrightarrow> P"
    and Enforced: "\<And>ic w1 dns w2 infra w3 cfg w4 errs s5 serr w6.
      \<lbrakk>client_Get_IngressController (client r) request w = (Inr ic, w1);
       client_Get_DNS (client r) cluster w1 = (Inr dns, w2);
       client_Get_Infrastructure (client r) cluster w2 = (Inr infra, w3);
       client_Get_Ingress (client r) cluster w3 = (Inr cfg, w4);
       enforce r ic dns infra cfg []
           \<lparr>world = w4,
            trace = [Get_IngressController request (Inr ic), Get_DNS (Inr dns), Get_Infrastructure (Inr infra),
                     Get_Ingress (Inr cfg)]\<rparr> = (errs, s5);
       syncOperatorStatus r (world s5) = (serr, w6);
       outcome r request w =
         (\<lparr>Requeue = False, RequeueAfter = 0\<rparr>, NewAggregate (errs @ sync_errs serr));
       pass r request w = trace s5 @ [Method SyncOperatorStatus serr]\<rbrakk>
      \<Longrightarrow> P"
  shows P
proof (cases "client_Get_IngressController (client r) request w")
  case (Pair got w1)
  show P
  proof (cases got)
    case (Inl e)
    obtain serr w2 where sy: "syncOperatorStatus r w1 = (serr, w2)"
      by (cases "syncOperatorStatus r w1")
    from Pair Inl have g: "client_Get_IngressController (client r) request w = (Inl e, w1)"
      by simp
    show P
      using Reconcile_absent[OF g sy]
      by (intro Absent[OF g sy]) (simp_all add: outcome_def pass_def sync_errs_def)
  next
    case (Inr ic)
    from Pair Inr have g: "client_Get_IngressController (client r) request w = (Inr ic, w1)"
      by simp
    obtain d w2 where gd: "client_Get_DNS (client r) cluster w1 = (d, w2)"
      by (cases "client_Get_DNS (client r) cluster w1")
    obtain i w3 where gi: "client_Get_Infrastructure (client r) cluster w2 = (i, w3)"
      by (cases "client_Get_Infrastructure (client r) cluster w2")
    obtain c w4 where gc: "client_Get_Ingress (client r) cluster w3 = (c, w4)"
      by (cases "client_Get_Ingress (client r) cluster w3")
    show P
    proof (cases "isl d \<or> isl i \<or> isl c")
      case True
      obtain serr w5 where sy: "syncOperatorStatus r w4 = (serr, w5)"
        by (cases "syncOperatorStatus r w4")
      show P
        using Reconcile_deferred[OF g gd gi gc True sy]
        by (intro Deferred[OF g gd gi gc True sy]) (simp_all add: outcome_def pass_def sync_errs_def)
    next
      case False
      then obtain dns infra cfg where ok: "d = Inr dns" "i = Inr infra" "c = Inr cfg"
        by (cases d; cases i; cases c) auto
      obtain errs s5 where en: "enforce r ic dns infra cfg []
           \<lparr>world = w4,
            trace = [Get_IngressController request (Inr ic), Get_DNS (Inr dns), Get_Infrastructure (Inr infra),
                     Get_Ingress (Inr cfg)]\<rparr> = (errs, s5)"
        by (metis prod.exhaust)
      obtain serr w6 where sy: "syncOperatorStatus r (world s5) = (serr, w6)"
        by (cases "syncOperatorStatus r (world s5)")
      note gs = g gd[unfolded ok] gi[unfolded ok] gc[unfolded ok]
      show P
        using Reconcile_enforced[OF gs en sy]
        by (intro Enforced[OF gs en sy]) (simp_all add: outcome_def pass_def sync_errs_def)
    qed
  qed
qed

lemma enforce_gate:
  assumes "enforce r ic dns infra cfg errs s = (errs', s')"
    and "Enter EnforceEffectiveEndpointPublishingStrategy \<notin> set (trace s)"
    and "\<forall>ic'. Leave EnforceEffectiveIngressDomain None (Some ic') \<notin> set (trace s)"
  shows "Enter EnforceEffectiveEndpointPublishingStrategy \<in> set (trace s') \<longleftrightarrow>
     (\<exists>ic'. Leave EnforceEffectiveIngressDomain None (Some ic') \<in> set (trace s') \<and> Status_Domain ic' \<noteq> [])"
proof (cases rule: enforce_cases[of r s ic cfg dns infra errs])
  case (DomainFailed nsErr s1 e ic1 s2)
  then show ?thesis using assms by (simp add: mems trace_emit)
next
  case (DomainUnset nsErr s1 ic1 s2)
  then show ?thesis using assms by (auto simp add: mems trace_emit)
next
  case (StrategyFailed nsErr s1 ic1 s2 e ic2 s3)
  then show ?thesis using assms by (auto simp add: mems trace_emit)
next
  case (Deleting nsErr s1 ic1 s2 ic2 s3 delErr s4)
  then show ?thesis using assms by (auto simp add: mems trace_emit)
next
  case (FinalizerFailed nsErr s1 ic1 s2 ic2 s3 e ic3 s4)
  then show ?thesis using assms by (auto simp add: mems trace_emit)
next
  case (Ensuring nsErr s1 ic1 s2 ic2 s3 ic3 s4 cErr s5)
  then show ?thesis using assms by (auto simp add: mems trace_emit)
qed

lemma grows_emit_right: "grows UNIV s s' \<Longrightarrow> grows UNIV s (emit c s')"
  by (auto simp: grows_def emit_def)

lemma grows_UNIV: "grows F s1 s' \<Longrightarrow> grows UNIV s s1 \<Longrightarrow> grows UNIV s s'"
  by (fastforce simp: grows_def)

lemmas after =
  grows_UNIV[OF ensureRouterNamespace_grows]
  grows_UNIV[OF enforceEffectiveIngressDomain_grows]
  grows_UNIV[OF enforceEffectiveEndpointPublishingStrategy_grows]
  grows_UNIV[OF enforceIngressFinalizer_grows]
  grows_UNIV[OF ensureIngressDeleted_grows]
  grows_UNIV[OF ensureIngressController_grows']

lemma enforce_grows: "grows UNIV s (snd (enforce r ic dns infra cfg errs s))"
  by (cases rule: enforce_cases[of r s ic cfg dns infra errs])
     (simp, (rule grows_emit_right | erule after | rule grows_refl)+)+

lemma enforce_enters:
  "Enter EnsureRouterNamespace \<in> set (trace (snd (enforce r ic dns infra cfg errs s)))
   \<and> Enter EnforceEffectiveIngressDomain \<in> set (trace (snd (enforce r ic dns infra cfg errs s)))"
  by (cases rule: enforce_cases[of r s ic cfg dns infra errs]) (simp_all add: mems trace_emit)

lemma grows_keeps: "grows F s s' \<Longrightarrow> c \<in> set (trace s) \<Longrightarrow> c \<in> set (trace s')"
  by (auto simp: grows_def)

lemmas stays =
  grows_keeps[OF ensureRouterNamespace_grows]
  grows_keeps[OF enforceEffectiveIngressDomain_grows]
  grows_keeps[OF enforceEffectiveEndpointPublishingStrategy_grows]

lemma domain_returns:
  "enforceEffectiveIngressDomain r ic cfg s = ((err, ic'), s') \<Longrightarrow>
   ic' = ic \<or> (\<exists>key. Get_IngressController key (Inr ic') \<in> set (trace s'))"
  unfolding enforceEffectiveIngressDomain_def Let_def isDomainUnique_def ext_def
  by (auto split: prod.splits sum.splits option.splits if_splits)

lemma strategy_returns:
  "enforceEffectiveEndpointPublishingStrategy r ic infra s = ((err, ic'), s') \<Longrightarrow>
   ic' = ic \<or> (\<exists>key. Get_IngressController key (Inr ic') \<in> set (trace s'))"
  unfolding enforceEffectiveEndpointPublishingStrategy_def Let_def ext_def
  by (auto split: prod.splits sum.splits option.splits if_splits)

lemma memory_was_read:
  assumes ns: "ensureRouterNamespace r (emit (Enter EnsureRouterNamespace) s) = (nsErr, s1)"
    and d: "enforceEffectiveIngressDomain r ic cfg
         (emit (Enter EnforceEffectiveIngressDomain) (emit (Leave EnsureRouterNamespace nsErr (Some ic)) s1))
         = ((None, ic1), s2)"
    and e: "enforceEffectiveEndpointPublishingStrategy r ic1 infra
         (emit (Enter EnforceEffectiveEndpointPublishingStrategy)
            (emit (Leave EnforceEffectiveIngressDomain None (Some ic1)) s2))
         = ((None, ic2), s3)"
    and got: "Get_IngressController key0 (Inr ic) \<in> set (trace s)"
  shows "\<exists>key. Get_IngressController key (Inr ic2) \<in> set (trace s3)"
proof -
  from got have "Get_IngressController key0 (Inr ic) \<in> set (trace (emit (Enter EnsureRouterNamespace) s))"
    by (simp add: trace_emit)
  from stays(1)[OF ns this]
  have "Get_IngressController key0 (Inr ic)
      \<in> set (trace (emit (Enter EnforceEffectiveIngressDomain) (emit (Leave EnsureRouterNamespace nsErr (Some ic)) s1)))"
    by (simp add: trace_emit)
  from stays(2)[OF d this] have in2: "Get_IngressController key0 (Inr ic) \<in> set (trace s2)" .
  from domain_returns[OF d] in2 obtain key1 where "Get_IngressController key1 (Inr ic1) \<in> set (trace s2)"
    by auto
  then have "Get_IngressController key1 (Inr ic1)
      \<in> set (trace (emit (Enter EnforceEffectiveEndpointPublishingStrategy)
            (emit (Leave EnforceEffectiveIngressDomain None (Some ic1)) s2)))"
    by (simp add: trace_emit)
  from stays(3)[OF e this] have "Get_IngressController key1 (Inr ic1) \<in> set (trace s3)" .
  with strategy_returns[OF e] show ?thesis
    by auto
qed

lemma enforce_deleting:
  assumes got: "Get_IngressController key0 (Inr ic) \<in> set (trace s)"
    and H: "\<forall>key ic'. Get_IngressController key (Inr ic')
                \<in> set (trace (snd (enforce r ic dns infra cfg errs s))) \<longrightarrow> DeletionTimestamp ic' \<noteq> None"
    and fresh: "Enter EnforceIngressFinalizer \<notin> set (trace s)" "Enter EnsureIngressController \<notin> set (trace s)"
  shows "Enter EnforceIngressFinalizer \<notin> set (trace (snd (enforce r ic dns infra cfg errs s)))
       \<and> Enter EnsureIngressController \<notin> set (trace (snd (enforce r ic dns infra cfg errs s)))"
proof (cases rule: enforce_cases[of r s ic cfg dns infra errs])
  case (DomainFailed nsErr s1 e ic1 s2)
  then show ?thesis using fresh by (simp add: mems trace_emit)
next
  case (DomainUnset nsErr s1 ic1 s2)
  then show ?thesis using fresh by (simp add: mems trace_emit)
next
  case (StrategyFailed nsErr s1 ic1 s2 e ic2 s3)
  then show ?thesis using fresh by (simp add: mems trace_emit)
next
  case (Deleting nsErr s1 ic1 s2 ic2 s3 delErr s4)
  then show ?thesis using fresh by (simp add: mems trace_emit)
next
  case (FinalizerFailed nsErr s1 ic1 s2 ic2 s3 e ic3 s4)
  from memory_was_read[OF FinalizerFailed(1,2,4) got]
  obtain key where "Get_IngressController key (Inr ic2) \<in> set (trace s3)" ..
  then have "Get_IngressController key (Inr ic2) \<in> set (trace (snd (enforce r ic dns infra cfg errs s)))"
    using FinalizerFailed by (simp add: mems trace_emit)
  with H FinalizerFailed(5) show ?thesis by blast
next
  case (Ensuring nsErr s1 ic1 s2 ic2 s3 ic3 s4 cErr s5)
  from memory_was_read[OF Ensuring(1,2,4) got]
  obtain key where "Get_IngressController key (Inr ic2) \<in> set (trace s3)" ..
  then have "Get_IngressController key (Inr ic2) \<in> set (trace (snd (enforce r ic dns infra cfg errs s)))"
    using Ensuring by (simp add: mems trace_emit)
  with H Ensuring(5) show ?thesis by blast
qed

lemma noConflict_iff: "noConflict domain items \<longleftrightarrow> (\<forall>ing\<in>set items. domain \<noteq> Status_Domain ing)"
  by (induction items) auto

lemma conflict_condition:
  "cond_LastTransitionTime
     (setIngressLastTransitionTime now
        \<lparr>cond_Type = IngressControllerAvailableConditionType, cond_Status = ConditionFalse,
         cond_Reason = ''InvalidDomain'', cond_Message = m, cond_LastTransitionTime = 0\<rparr> old)
   = (case old of
        Some c \<Rightarrow> if cond_Status c = ConditionFalse then cond_LastTransitionTime c else now
      | None \<Rightarrow> now)
   \<and> cond_Type (setIngressLastTransitionTime now
        \<lparr>cond_Type = IngressControllerAvailableConditionType, cond_Status = ConditionFalse,
         cond_Reason = ''InvalidDomain'', cond_Message = m, cond_LastTransitionTime = 0\<rparr> old)
       = IngressControllerAvailableConditionType
   \<and> cond_Status (setIngressLastTransitionTime now
        \<lparr>cond_Type = IngressControllerAvailableConditionType, cond_Status = ConditionFalse,
         cond_Reason = ''InvalidDomain'', cond_Message = m, cond_LastTransitionTime = 0\<rparr> old)
       = ConditionFalse
   \<and> cond_Reason (setIngressLastTransitionTime now
        \<lparr>cond_Type = IngressControllerAvailableConditionType, cond_Status = ConditionFalse,
         cond_Reason = ''InvalidDomain'', cond_Message = m, cond_LastTransitionTime = 0\<rparr> old)
       = ''InvalidDomain''"
  by (cases old) (auto simp: setIngressLastTransitionTime_def)

subsection \<open>The published fields in the log\<close>

lemma latest_append: "latest cur (xs @ ys) = latest (latest cur xs) ys"
  by (induction cur xs rule: latest.induct) auto

lemma published_kept_append:
  "published_kept cur (xs @ ys) \<longleftrightarrow> published_kept cur xs \<and> published_kept (latest cur xs) ys"
  by (induction cur xs rule: published_kept.induct) auto

lemma neutral:
  "\<forall>c\<in>set evs. tag_of c \<notin> {T_Get_IngressController, T_Update, T_Status_Update} \<Longrightarrow>
   published_kept cur evs \<and> latest cur evs = cur"
  by (induction cur evs rule: published_kept.induct) auto

lemma settled_grows:
  assumes "grows F s s'" and "F \<inter> {T_Get_IngressController, T_Update, T_Status_Update} = {}"
    and "settled ic s"
  shows "settled ic s'"
proof -
  from assms(1) obtain evs where evs: "trace s' = trace s @ evs" "\<forall>c\<in>set evs. tag_of c \<in> F"
    by (auto simp: grows_def)
  with assms(2) have "\<forall>c\<in>set evs. tag_of c \<notin> {T_Get_IngressController, T_Update, T_Status_Update}"
    by blast
  from neutral[OF this] evs(1) assms(3) show ?thesis
    by (simp add: settled_def published_kept_append latest_append)
qed

lemma settled_emit:
  "settled ic (emit (Enter st) s) = settled ic s"
  "settled ic (emit (Leave st e i) s) = settled ic s"
  by (simp_all add: settled_def emit_def published_kept_append latest_append)

lemma kept_emit:
  "published_kept None (trace (emit (Leave st e i) s)) = published_kept None (trace s)"
  by (simp add: emit_def published_kept_append)

lemma namespace_settled:
  "ensureRouterNamespace r s = (x, s') \<Longrightarrow> settled ic s \<Longrightarrow> settled ic s'"
  by (erule settled_grows[OF ensureRouterNamespace_grows]) simp_all

lemma controller_settled:
  "ensureIngressController r ci dns infra s = (x, s') \<Longrightarrow> settled ic s \<Longrightarrow> settled ic s'"
  by (erule settled_grows[OF ensureIngressController_grows']) simp_all

lemma domain_settles:
  "enforceEffectiveIngressDomain r ic cfg s = ((err, ic'), s') \<Longrightarrow> settled ic s \<Longrightarrow>
   published_kept None (trace s') \<and> (err = None \<longrightarrow> settled ic' s')"
  unfolding enforceEffectiveIngressDomain_def Let_def isDomainUnique_def ext_def
  by (auto simp: settled_def published_kept_append latest_append keeps_def
      split: prod.splits sum.splits option.splits if_splits)

lemma strategy_settles:
  "enforceEffectiveEndpointPublishingStrategy r ic infra s = ((err, ic'), s') \<Longrightarrow> settled ic s \<Longrightarrow>
   published_kept None (trace s') \<and> (err = None \<longrightarrow> settled ic' s')"
  unfolding enforceEffectiveEndpointPublishingStrategy_def Let_def ext_def
  by (auto simp: settled_def published_kept_append latest_append keeps_def
      split: prod.splits sum.splits option.splits if_splits)

lemma finalizer_settled:
  "enforceIngressFinalizer r ic s = (x, s') \<Longrightarrow> settled ic s \<Longrightarrow> settled ic s'"
  unfolding enforceIngressFinalizer_def Let_def ext_def
  by (auto simp: settled_def published_kept_append latest_append keeps_def
      split: prod.splits sum.splits option.splits if_splits)

lemma deleted_settled:
  "ensureIngressDeleted r ic dns infra s = (x, s') \<Longrightarrow> settled ic s \<Longrightarrow> settled ic s'"
  unfolding ensureIngressDeleted_def Let_def ext_def
  by (auto simp: settled_def published_kept_append latest_append keeps_def
      split: prod.splits sum.splits option.splits if_splits)

lemma domain_settled:
  "enforceEffectiveIngressDomain r ic cfg s = ((None, ic'), s') \<Longrightarrow> settled ic s \<Longrightarrow> settled ic' s'"
  using domain_settles by blast

lemma strategy_settled:
  "enforceEffectiveEndpointPublishingStrategy r ic infra s = ((None, ic'), s') \<Longrightarrow> settled ic s \<Longrightarrow> settled ic' s'"
  using strategy_settles by blast

lemma domain_kept:
  "enforceEffectiveIngressDomain r ic cfg s = ((err, ic'), s') \<Longrightarrow> settled ic s \<Longrightarrow>
   published_kept None (trace s')"
  using domain_settles by blast

lemma strategy_kept:
  "enforceEffectiveEndpointPublishingStrategy r ic infra s = ((err, ic'), s') \<Longrightarrow> settled ic s \<Longrightarrow>
   published_kept None (trace s')"
  using strategy_settles by blast

lemma settled_kept: "settled ic s \<Longrightarrow> published_kept None (trace s)"
  by (simp add: settled_def)

lemmas finalizer_kept = settled_kept[OF finalizer_settled]
lemmas deleted_kept = settled_kept[OF deleted_settled]
lemmas controller_kept = settled_kept[OF controller_settled]

lemma enforce_keeps:
  assumes "settled ic s"
  shows "published_kept None (trace (snd (enforce r ic dns infra cfg errs s)))"
  using assms
  by (cases rule: enforce_cases[of r s ic cfg dns infra errs])
     (simp add: kept_emit,
      (erule domain_kept strategy_kept finalizer_kept deleted_kept controller_kept
             namespace_settled domain_settled strategy_settled finalizer_settled
       | simp add: settled_emit)+)+

subsection \<open>The status sync of the ingress controller\<close>

lemma ends_after: "grows UNIV s s1 \<Longrightarrow> ends_sync s1 s' \<Longrightarrow> ends_sync s s'"
  by (fastforce simp: grows_def ends_sync_def)

lemma ends_seq:
  "grows UNIV s (snd X) \<Longrightarrow> (\<And>a s1. ends_sync s1 (snd (B a s1))) \<Longrightarrow>
   ends_sync s (snd (case X of (a, s1) \<Rightarrow> B a s1))"
proof (cases X)
  case (Pair a s1)
  assume "grows UNIV s (snd X)" and "\<And>a s1. ends_sync s1 (snd (B a s1))"
  then have "grows UNIV s s1" and "ends_sync s1 (snd (B a s1))"
    using Pair by simp_all
  then show ?thesis
    using Pair by (simp add: ends_after)
qed

lemma ends_seq2:
  "grows UNIV s (snd X) \<Longrightarrow> (\<And>a b s1. ends_sync s1 (snd (B a b s1))) \<Longrightarrow>
   ends_sync s (snd (case X of ((a, b), s1) \<Rightarrow> B a b s1))"
proof (cases X)
  case (Pair ab s1)
  obtain a b where ab: "ab = (a, b)" by (cases ab)
  assume "grows UNIV s (snd X)" and "\<And>a b s1. ends_sync s1 (snd (B a b s1))"
  then have "grows UNIV s s1" and "ends_sync s1 (snd (B a b s1))"
    using Pair by simp_all
  then show ?thesis
    using Pair ab by (simp add: ends_after)
qed

lemma ends_pure:
  "(\<And>a b. ends_sync s (snd (B a b))) \<Longrightarrow> ends_sync s (snd (case X of (a, b) \<Rightarrow> B a b))"
  by (cases X) simp

lemma ends_final:
  "(\<And>a s7. snd (B a s7) = s7) \<Longrightarrow>
   ends_sync s (snd (case ext g (Method SyncIngressControllerStatus) s of (a, s7) \<Rightarrow> B a s7))"
  by (auto simp: ends_sync_def ext_def split: prod.splits)

lemma ensureIngressController_failed:
  assumes "ensureRouterDeployment r ci infra (world s) = (Inl e, w1)"
  shows "trace (snd (ensureIngressController r ci dns infra s))
           = trace s @ [Method EnsureRouterDeployment (Some e)]"
  using assms by (simp add: ensureIngressController_def ext_def err_of_def)

lemma ensureIngressController_synced:
  assumes "ensureRouterDeployment r ci infra (world s) = (Inr dep, w1)"
  shows "\<exists>evs x. trace (snd (ensureIngressController r ci dns infra s))
           = trace s @ Method EnsureRouterDeployment None # evs @ [Method SyncIngressControllerStatus x]"
proof -
  let ?s1 = "\<lparr>world = w1, trace = trace s @ [Method EnsureRouterDeployment None]\<rparr>"
  have first: "ext (ensureRouterDeployment r ci infra) (\<lambda>x. Method EnsureRouterDeployment (err_of x)) s
                 = (Inr dep, ?s1)"
    using assms by (simp add: ext_def err_of_def)
  have "ends_sync ?s1 (snd (ensureIngressController r ci dns infra s))"
    unfolding ensureIngressController_def Let_def
    apply (simp only: first prod.case sum.case)
    apply ((rule ends_final | rule ends_seq2 | rule ends_seq | rule ends_pure
          | rule grows_seq2 | rule grows_seq | rule grows_pure | rule grows_ext_snd | rule grows_here
          | rule ensureMetricsIntegration_snd | rule conjI | rule allI | rule impI
          | split sum.split option.split | simp)+)
    done
  then show ?thesis
    by (auto simp: ends_sync_def)
qed

lemma enforce_status_sync:
  assumes fresh: "\<forall>x. Method SyncIngressControllerStatus x \<notin> set (trace s)"
      "Method EnsureRouterDeployment None \<notin> set (trace s)"
      "Enter EnsureIngressController \<notin> set (trace s)"
  shows "(\<exists>x. Method SyncIngressControllerStatus x \<in> set (trace (snd (enforce r ic dns infra cfg errs s))))
     \<longleftrightarrow> (Enter EnsureIngressController \<in> set (trace (snd (enforce r ic dns infra cfg errs s)))
          \<and> Method EnsureRouterDeployment None \<in> set (trace (snd (enforce r ic dns infra cfg errs s))))"
proof (cases rule: enforce_cases[of r s ic cfg dns infra errs])
  case (DomainFailed nsErr s1 e ic1 s2)
  then show ?thesis using fresh by (simp add: mems trace_emit)
next
  case (DomainUnset nsErr s1 ic1 s2)
  then show ?thesis using fresh by (simp add: mems trace_emit)
next
  case (StrategyFailed nsErr s1 ic1 s2 e ic2 s3)
  then show ?thesis using fresh by (simp add: mems trace_emit)
next
  case (Deleting nsErr s1 ic1 s2 ic2 s3 delErr s4)
  then show ?thesis using fresh by (simp add: mems trace_emit)
next
  case (FinalizerFailed nsErr s1 ic1 s2 ic2 s3 e ic3 s4)
  then show ?thesis using fresh by (simp add: mems trace_emit)
next
  case (Ensuring nsErr s1 ic1 s2 ic2 s3 ic3 s4 cErr s5)
  let ?sin = "emit (Enter EnsureIngressController) (emit (Leave EnforceIngressFinalizer None (Some ic3)) s4)"
  have before: "\<forall>x. Method SyncIngressControllerStatus x \<notin> set (trace ?sin)"
      "Method EnsureRouterDeployment None \<notin> set (trace ?sin)"
    using Ensuring fresh by (simp_all add: mems trace_emit)
  have s5: "snd (ensureIngressController r ic3 dns infra ?sin) = s5"
    using Ensuring(7) by simp
  obtain res w1 where dep: "ensureRouterDeployment r ic3 infra (world ?sin) = (res, w1)"
    by (cases "ensureRouterDeployment r ic3 infra (world ?sin)")
  show ?thesis
  proof (cases res)
    case (Inl e)
    from ensureIngressController_failed[OF dep[unfolded Inl], of dns] s5
    have "trace s5 = trace ?sin @ [Method EnsureRouterDeployment (Some e)]"
      by simp
    with before Ensuring(8) show ?thesis
      by (auto simp: trace_emit)
  next
    case (Inr d)
    from ensureIngressController_synced[OF dep[unfolded Inr], of dns] s5
    obtain evs x where "trace s5 = trace ?sin @ Method EnsureRouterDeployment None # evs
                          @ [Method SyncIngressControllerStatus x]"
      by auto
    with Ensuring(8) show ?thesis
      by (auto simp: trace_emit)
  qed
qed

section \<open>The claims\<close>

text \<open>
  C1. Once \<open>Status.Domain\<close> is non-empty, \<open>enforceEffectiveIngressDomain\<close> returns success
  without any call and leaves the object and the world as they are; once
  \<open>Status.EndpointPublishingStrategy\<close> is non-nil, so does
  \<open>enforceEffectiveEndpointPublishingStrategy\<close>. Hence in every pass, whatever \<open>Spec.Domain\<close>
  says, each status update and update that the methods of this file send carries the
  \<open>Status.Domain\<close> and the \<open>Status.EndpointPublishingStrategy\<close> of the version of the
  ingress controller read last, whenever that version has them published.
\<close>

theorem write_once_status:
  "(Status_Domain ic \<noteq> [] \<longrightarrow> enforceEffectiveIngressDomain r ic ingressConfig s = ((None, ic), s))
   \<and> (Status_EndpointPublishingStrategy ic \<noteq> None \<longrightarrow>
        enforceEffectiveEndpointPublishingStrategy r ic infraConfig s = ((None, ic), s))
   \<and> published_kept None (pass r request w)"
proof -
  have "published_kept None (pass r request w)"
  proof (cases rule: Reconcile_cases[of r request w])
    case (Absent e w1 serr w2)
    then show ?thesis by simp
  next
    case (Deferred ic w1 d w2 i w3 g w4 serr w5)
    then show ?thesis by simp
  next
    case (Enforced ic w1 dns w2 infra w3 cfg w4 errs s5 serr w6)
    let ?s4 = "\<lparr>world = w4,
            trace = [Get_IngressController request (Inr ic), Get_DNS (Inr dns), Get_Infrastructure (Inr infra),
                     Get_Ingress (Inr cfg)]\<rparr>"
    have "settled ic ?s4"
      by (simp add: settled_def)
    from enforce_keeps[OF this, of r dns infra cfg "[]"] Enforced(5)
    have "published_kept None (trace s5)"
      by simp
    with Enforced(8) show ?thesis
      by (simp add: published_kept_append)
  qed
  then show ?thesis
    by (simp add: enforceEffectiveIngressDomain_def enforceEffectiveEndpointPublishingStrategy_def)
qed

theorem write_once_status_witness:
  "enforceEffectiveIngressDomain fake edge_published \<lparr>ingress_Spec_Domain = ''apps.example.com''\<rparr>
      (start (holding (Some edge_published) [] []))
     = ((None, edge_published), start (holding (Some edge_published) [] []))
   \<and> enforceEffectiveEndpointPublishingStrategy fake edge_published \<lparr>infra_Status_Platform = AWSPlatformType\<rparr>
      (start (holding (Some edge_published) [] []))
     = ((None, edge_published), start (holding (Some edge_published) [] []))
   \<and> published_kept None (pass fake edge_request (holding (Some edge_deleting) [] []))"
proof -
  have "Status_Domain edge_published \<noteq> []" "Status_EndpointPublishingStrategy edge_published \<noteq> None"
    by code_simp+
  with write_once_status[of edge_published fake "\<lparr>ingress_Spec_Domain = ''apps.example.com''\<rparr>"
      "start (holding (Some edge_published) [] [])" "\<lparr>infra_Status_Platform = AWSPlatformType\<rparr>"
      edge_request "holding (Some edge_deleting) [] []"]
  show ?thesis by simp
qed

text \<open>
  C2. \<open>ensureIngressDeleted\<close> sends the update that removes the finalizer only after the
  finalization of the load balancer service and the deletion of the deployment have
  both returned without error, in that order, in the same call; the object it sends is
  the ingress controller without the finalizer token. If either step fails, the
  function returns an error and sends no update.
\<close>

theorem finalizer_removed_last:
  assumes "ensureIngressDeleted r ingress dnsConfig infraConfig (start w) = (err, s')"
  shows "(\<forall>obj x. Update obj x \<in> set (trace s') \<longrightarrow>
            trace s' = [Method FinalizeLoadBalancerService None, Method EnsureRouterDeleted None, Update obj x]
            \<and> obj = ingress\<lparr>Finalizers := RemoveString (Finalizers ingress) IngressControllerFinalizer\<rparr>
            \<and> IngressControllerFinalizer \<notin> set (Finalizers obj))
     \<and> (\<forall>e. Method FinalizeLoadBalancerService (Some e) \<in> set (trace s')
              \<or> Method EnsureRouterDeleted (Some e) \<in> set (trace s') \<longrightarrow>
            err \<noteq> None \<and> (\<forall>obj x. Update obj x \<notin> set (trace s')))"
  using assms
  unfolding ensureIngressDeleted_def Let_def ext_def start_def
  by (auto simp: RemoveString_def split: prod.splits option.splits sum.splits if_splits)

theorem finalizer_removed_last_witness:
  "\<exists>obj x. trace (snd (ensureIngressDeleted fake edge_deleting \<lparr>dns_Spec_BaseDomain = ''example.com''\<rparr>
                 \<lparr>infra_Status_Platform = AWSPlatformType\<rparr> (start (holding (Some edge_deleting) [] []))))
       = [Method FinalizeLoadBalancerService None, Method EnsureRouterDeleted None, Update obj x]
     \<and> IngressControllerFinalizer \<notin> set (Finalizers obj)"
proof -
  let ?run = "ensureIngressDeleted fake edge_deleting \<lparr>dns_Spec_BaseDomain = ''example.com''\<rparr>
                 \<lparr>infra_Status_Platform = AWSPlatformType\<rparr> (start (holding (Some edge_deleting) [] []))"
  have u: "Update (edge_deleting\<lparr>Finalizers := []\<rparr>) (Inr (edge_deleting\<lparr>Finalizers := []\<rparr>))
             \<in> set (trace (snd ?run))"
    by code_simp
  have "?run = (fst ?run, snd ?run)"
    by simp
  from finalizer_removed_last[OF this] u show ?thesis
    by blast
qed

text \<open>
  C3, as amended. \<open>isDomainUnique\<close> lists the ingress controllers of the namespace and, when
  the listing succeeds, reports "not unique" exactly when the candidate domain equals
  the \<open>Status.Domain\<close> of some listed ingress controller, empty or not. For a non-empty
  candidate that is: equals some listed non-empty \<open>Status.Domain\<close>, and an ingress
  controller with an empty \<open>Status.Domain\<close> causes no conflict. An empty candidate
  conflicts with every listed ingress controller whose \<open>Status.Domain\<close> is empty. When
  the listing fails the function returns false together with the error.
\<close>

theorem isDomainUnique_exact:
  assumes "cache_List_IngressControllers (cache r) (Namespace r) (world s) = (listed, w1)"
  shows "fst (isDomainUnique r domain s) =
           (case listed of
              Inl e \<Rightarrow> (False, Some (Errorf ''failed to list ingresscontrollers: %v'' [] e))
            | Inr items \<Rightarrow> (\<not> (\<exists>ing\<in>set items. domain = Status_Domain ing), None))
     \<and> (\<forall>items. listed = Inr items \<and> domain \<noteq> [] \<longrightarrow>
           (fst (fst (isDomainUnique r domain s)) \<longleftrightarrow>
            \<not> (\<exists>ing\<in>set items. Status_Domain ing \<noteq> [] \<and> domain = Status_Domain ing)))
     \<and> (\<forall>items. listed = Inr items \<and> domain = [] \<longrightarrow>
           (fst (fst (isDomainUnique r domain s)) \<longleftrightarrow> \<not> (\<exists>ing\<in>set items. Status_Domain ing = [])))"
  using assms
  by (cases listed) (auto simp: isDomainUnique_def ext_def noConflict_iff)

theorem isDomainUnique_exact_witness:
  "fst (isDomainUnique fake ''apps.example.com'' (start (holding None [edge, edge_published] [])))
     = (False, None)
   \<and> (\<exists>ing\<in>set [edge, edge_published]. Status_Domain ing \<noteq> [] \<and> ''apps.example.com'' = Status_Domain ing)"
proof -
  have l: "cache_List_IngressControllers (cache fake) (Namespace fake)
             (world (start (holding None [edge, edge_published] [])))
           = (Inr [edge, edge_published], holding None [edge, edge_published] [])"
    by code_simp
  have "\<exists>ing\<in>set [edge, edge_published]. ''apps.example.com'' = Status_Domain ing"
    by code_simp
  moreover have "\<exists>ing\<in>set [edge, edge_published]. Status_Domain ing \<noteq> [] \<and> ''apps.example.com'' = Status_Domain ing"
    by code_simp
  ultimately show ?thesis
    using isDomainUnique_exact[OF l, of "''apps.example.com''"] by simp
qed

text \<open>The claim as stated fails for the empty candidate: the only listed ingress
  controller has an empty \<open>Status.Domain\<close>, and the check reports a conflict.\<close>

theorem isDomainUnique_empty_candidate:
  "fst (isDomainUnique fake [] (start (holding None [edge] []))) = (False, None)
   \<and> \<not> (\<exists>ing\<in>set [edge]. Status_Domain ing \<noteq> [] \<and> [] = Status_Domain ing)"
  by code_simp

text \<open>
  C4, as amended. When the uniqueness check reports a conflict (false, no error) for an
  ingress controller whose \<open>Status.Domain\<close> is empty, \<open>enforceEffectiveIngressDomain\<close>
  sends one status update. The object sent has \<open>Status.Domain\<close> still empty and its
  condition list replaced by the single condition Available=False with reason
  InvalidDomain, whose \<open>LastTransitionTime\<close> is that of the previous Available condition
  when that condition's status was already False, and the current time otherwise. No
  other write follows. The conflict itself is no error: the function returns without
  error exactly when that status update and the re-read of the ingress controller
  after it both succeed, and otherwise returns the failure, with the object in memory
  unchanged.
\<close>

theorem domain_conflict_recorded:
  assumes empty: "Status_Domain ic = []"
    and conflict: "isDomainUnique r (if length (Spec_Domain ic) > 0 then Spec_Domain ic
                           else ingress_Spec_Domain ingressConfig) s = ((False, None), s1)"
    and run: "enforceEffectiveIngressDomain r ic ingressConfig s = ((err, ic'), s')"
  shows "\<exists>c x rest.
      trace s' = trace s1 @ Status_Update (ic\<lparr>Status_Conditions := [c]\<rparr>) x # rest
    \<and> Status_Domain (ic\<lparr>Status_Conditions := [c]\<rparr>) = []
    \<and> cond_Type c = IngressControllerAvailableConditionType
    \<and> cond_Status c = ConditionFalse
    \<and> cond_Reason c = ''InvalidDomain''
    \<and> cond_LastTransitionTime c =
        (case getIngressAvailableCondition (Status_Conditions ic) of
           Some old \<Rightarrow> if cond_Status old = ConditionFalse then cond_LastTransitionTime old
                       else Now r (world s1)
         | None \<Rightarrow> Now r (world s1))
    \<and> (\<forall>c\<in>set rest. tag_of c = T_Get_IngressController)
    \<and> (err = None \<longleftrightarrow> (\<exists>upd key. x = Inr upd \<and> rest = [Get_IngressController key (Inr ic')]))
    \<and> (err \<noteq> None \<longrightarrow> ic' = ic)"
proof -
  define domain where "domain = (if length (Spec_Domain ic) > 0 then Spec_Domain ic
                           else ingress_Spec_Domain ingressConfig)"
  define c where "c = setIngressLastTransitionTime (Now r (world s1))
        \<lparr>cond_Type = IngressControllerAvailableConditionType, cond_Status = ConditionFalse,
         cond_Reason = ''InvalidDomain'',
         cond_Message = ''domain '' @ Quote domain @ '' is already in use by another IngressController'',
         cond_LastTransitionTime = 0\<rparr>
        (getIngressAvailableCondition (Status_Conditions ic))"
  let ?upd = "ic\<lparr>Status_Conditions := [c]\<rparr>"
  have c: "cond_Type c = IngressControllerAvailableConditionType" "cond_Status c = ConditionFalse"
    "cond_Reason c = ''InvalidDomain''"
    "cond_LastTransitionTime c =
        (case getIngressAvailableCondition (Status_Conditions ic) of
           Some old \<Rightarrow> if cond_Status old = ConditionFalse then cond_LastTransitionTime old
                       else Now r (world s1)
         | None \<Rightarrow> Now r (world s1))"
    unfolding c_def using conflict_condition by blast+
  obtain x w2 where su: "client_Status_Update (client r) ?upd (world s1) = (x, w2)"
    by (cases "client_Status_Update (client r) ?upd (world s1)")
  let ?s2 = "\<lparr>world = w2, trace = trace s1 @ [Status_Update ?upd x]\<rparr>"
  have body: "enforceEffectiveIngressDomain r ic ingressConfig s =
    (case x of
       Inl e \<Rightarrow> ((Some (Errorf ''failed to update status of IngressController %s/%s: %v''
                          [ic_Namespace ic, ic_Name ic] e), ic), ?s2)
     | Inr updated \<Rightarrow>
         (case ext (client_Get_IngressController (client r)
                      \<lparr>nn_Namespace = ic_Namespace updated, nn_Name = ic_Name updated\<rparr>)
                   (Get_IngressController \<lparr>nn_Namespace = ic_Namespace updated, nn_Name = ic_Name updated\<rparr>) ?s2 of
            (Inl e, s3) \<Rightarrow> ((Some (Errorf ''failed to get IngressController %s/%s: %v''
                              [ic_Namespace updated, ic_Name updated] e), ic), s3)
          | (Inr ic'', s3) \<Rightarrow> ((None, ic''), s3)))"
    using empty conflict su
    by (cases x) (simp_all add: enforceEffectiveIngressDomain_def Let_def ext_def c_def domain_def)
  show ?thesis
  proof (cases x)
    case (Inl e)
    with body run have "err = Some (Errorf ''failed to update status of IngressController %s/%s: %v''
                          [ic_Namespace ic, ic_Name ic] e)" "ic' = ic" "s' = ?s2"
      by simp_all
    with Inl c empty show ?thesis
      by (intro exI[of _ c] exI[of _ x] exI[of _ "[]"]) simp
  next
    case (Inr updated)
    let ?key = "\<lparr>nn_Namespace = ic_Namespace updated, nn_Name = ic_Name updated\<rparr>"
    obtain g w3 where gt: "client_Get_IngressController (client r) ?key w2 = (g, w3)"
      by (cases "client_Get_IngressController (client r) ?key w2")
    have tr: "trace s' = trace s1 @ [Status_Update ?upd x, Get_IngressController ?key g]"
      using body run Inr gt by (cases g) (auto simp: ext_def)
    have res: "(err = None \<longleftrightarrow> g = Inr ic') \<and> (err \<noteq> None \<longrightarrow> ic' = ic)"
      using body run Inr gt by (cases g) (auto simp: ext_def)
    from tr res Inr c empty show ?thesis
      by (intro exI[of _ c] exI[of _ x] exI[of _ "[Get_IngressController ?key g]"]) auto
  qed
qed

theorem domain_conflict_recorded_witness:
  "fst (fst (enforceEffectiveIngressDomain fake edge \<lparr>ingress_Spec_Domain = ''apps.example.com''\<rparr>
               (start (holding (Some edge) [edge, edge_published] [])))) = None
   \<and> (\<exists>c x rest.
        trace (snd (enforceEffectiveIngressDomain fake edge \<lparr>ingress_Spec_Domain = ''apps.example.com''\<rparr>
                      (start (holding (Some edge) [edge, edge_published] []))))
          = trace (snd (isDomainUnique fake ''apps.example.com''
                          (start (holding (Some edge) [edge, edge_published] []))))
            @ Status_Update (edge\<lparr>Status_Conditions := [c]\<rparr>) x # rest
        \<and> cond_Reason c = ''InvalidDomain''
        \<and> cond_LastTransitionTime c = 100)"
proof -
  let ?w = "holding (Some edge) [edge, edge_published] []"
  let ?cfg = "\<lparr>ingress_Spec_Domain = ''apps.example.com''\<rparr>"
  let ?run = "enforceEffectiveIngressDomain fake edge ?cfg (start ?w)"
  let ?s1 = "snd (isDomainUnique fake ''apps.example.com'' (start ?w))"
  have e: "Status_Domain edge = []"
    by code_simp
  have u: "isDomainUnique fake (if length (Spec_Domain edge) > 0 then Spec_Domain edge
                                else ingress_Spec_Domain ?cfg) (start ?w) = ((False, None), ?s1)"
    by code_simp
  have r: "?run = ((fst (fst ?run), snd (fst ?run)), snd ?run)"
    by simp
  have ok: "fst (fst ?run) = None"
    by code_simp
  have old: "getIngressAvailableCondition (Status_Conditions edge) = None"
    by code_simp
  have now: "Now fake (world ?s1) = 100"
    by code_simp
  from domain_conflict_recorded[OF e u r] old now ok show ?thesis
    by auto
qed

text \<open>The claim as stated fails when the status update fails: the check reports the
  conflict without error, and the function returns an error.\<close>

theorem domain_conflict_write_fails:
  "fst (isDomainUnique fake ''apps.example.com''
          (start (holding (Some edge) [edge, edge_published] [T_Status_Update]))) = (False, None)
   \<and> fst (fst (enforceEffectiveIngressDomain fake edge \<lparr>ingress_Spec_Domain = ''apps.example.com''\<rparr>
          (start (holding (Some edge) [edge, edge_published] [T_Status_Update])))) \<noteq> None"
  by code_simp

text \<open>
  C5. In every pass, \<open>enforceEffectiveEndpointPublishingStrategy\<close> is invoked if and only
  if \<open>enforceEffectiveIngressDomain\<close> returned without error and the \<open>Status.Domain\<close> of the
  ingress controller in memory is non-empty after it. A pass in which the domain
  enforcer was not reached, failed, or left the domain empty (the uniqueness check
  failed) does not reach the strategy enforcer.
\<close>

theorem strategy_gate:
  "Enter EnforceEffectiveEndpointPublishingStrategy \<in> set (pass r request w) \<longleftrightarrow>
     (\<exists>ic'. Leave EnforceEffectiveIngressDomain None (Some ic') \<in> set (pass r request w)
            \<and> Status_Domain ic' \<noteq> [])"
proof (cases rule: Reconcile_cases[of r request w])
  case (Absent e w1 serr w2)
  then show ?thesis by simp
next
  case (Deferred ic w1 d w2 i w3 g w4 serr w5)
  then show ?thesis by simp
next
  case (Enforced ic w1 dns w2 infra w3 cfg w4 errs s5 serr w6)
  from enforce_gate[OF Enforced(5)] Enforced(8) show ?thesis by simp
qed

text \<open>A pass of the fake client on \<open>edge\<close> with nothing published yet: the domain is
  published and read back, and the strategy enforcer is entered.\<close>

theorem strategy_gate_witness:
  "Enter EnforceEffectiveEndpointPublishingStrategy
     \<in> set (pass fake edge_request (holding (Some edge) [edge] []))
   \<and> (\<exists>ic'. Leave EnforceEffectiveIngressDomain None (Some ic')
              \<in> set (pass fake edge_request (holding (Some edge) [edge] []))
            \<and> Status_Domain ic' \<noteq> [])"
proof -
  have "Enter EnforceEffectiveEndpointPublishingStrategy
     \<in> set (pass fake edge_request (holding (Some edge) [edge] []))"
    by code_simp
  then show ?thesis
    using strategy_gate[of fake edge_request "holding (Some edge) [edge] []"] by simp
qed

text \<open>
  C6. In a pass in which every version of the ingress controller that the client
  returns (the first fetch and the re-reads after status updates) has a non-nil
  \<open>DeletionTimestamp\<close>, neither \<open>enforceIngressFinalizer\<close> nor \<open>ensureIngressController\<close> is
  invoked.
\<close>

theorem deletion_exclusive:
  assumes "\<forall>key ic. Get_IngressController key (Inr ic) \<in> set (pass r request w)
              \<longrightarrow> DeletionTimestamp ic \<noteq> None"
  shows "Enter EnforceIngressFinalizer \<notin> set (pass r request w)
       \<and> Enter EnsureIngressController \<notin> set (pass r request w)"
proof (cases rule: Reconcile_cases[of r request w])
  case (Absent e w1 serr w2)
  then show ?thesis by simp
next
  case (Deferred ic w1 d w2 i w3 g w4 serr w5)
  then show ?thesis by simp
next
  case (Enforced ic w1 dns w2 infra w3 cfg w4 errs s5 serr w6)
  let ?s4 = "\<lparr>world = w4,
            trace = [Get_IngressController request (Inr ic), Get_DNS (Inr dns), Get_Infrastructure (Inr infra),
                     Get_Ingress (Inr cfg)]\<rparr>"
  have s5: "snd (enforce r ic dns infra cfg [] ?s4) = s5"
    using Enforced(5) by simp
  have "Enter EnforceIngressFinalizer \<notin> set (trace s5) \<and> Enter EnsureIngressController \<notin> set (trace s5)"
    using enforce_deleting[of request ic ?s4 r dns infra cfg "[]"] assms Enforced(8) s5
    by simp
  with Enforced(8) show ?thesis by simp
qed

theorem deletion_exclusive_witness:
  "Enter EnsureIngressDeleted \<in> set (pass fake edge_request (holding (Some edge_deleting) [] []))
   \<and> Enter EnforceIngressFinalizer \<notin> set (pass fake edge_request (holding (Some edge_deleting) [] []))
   \<and> Enter EnsureIngressController \<notin> set (pass fake edge_request (holding (Some edge_deleting) [] []))"
proof -
  have a: "list_all (\<lambda>c. case c of
                  Get_IngressController key x \<Rightarrow>
                    (case x of Inr ic \<Rightarrow> DeletionTimestamp ic \<noteq> None | Inl e \<Rightarrow> True)
                | _ \<Rightarrow> True)
             (pass fake edge_request (holding (Some edge_deleting) [] []))"
    by code_simp
  have b: "Enter EnsureIngressDeleted \<in> set (pass fake edge_request (holding (Some edge_deleting) [] []))"
    by code_simp
  from a have "\<forall>key ic. Get_IngressController key (Inr ic)
        \<in> set (pass fake edge_request (holding (Some edge_deleting) [] [])) \<longrightarrow> DeletionTimestamp ic \<noteq> None"
    by (fastforce simp: list_all_iff)
  from deletion_exclusive[OF this] b show ?thesis
    by simp
qed

text \<open>
  C7. When the fetch of the ingress controller fails, the pass consists of that fetch
  and the sync of the operator status and nothing else: no enforcement step runs. A
  not-found error adds nothing to the combined error (which is nil when the status
  sync succeeds); any other error is the first entry of the combined error, which is
  then non-nil.
\<close>

theorem fetch_failure_only_syncs:
  assumes "client_Get_IngressController (client r) request w = (Inl e, w1)"
  shows "\<exists>serr. serr = fst (syncOperatorStatus r w1)
     \<and> pass r request w = [Get_IngressController request (Inl e), Method SyncOperatorStatus serr]
     \<and> snd (outcome r request w) =
         NewAggregate ((if IsNotFound e then []
                        else [Errorf ''failed to get ingresscontroller %q: %v'' [request_String request] e])
                       @ sync_errs serr)
     \<and> (IsNotFound e \<and> serr = None \<longrightarrow> snd (outcome r request w) = None)
     \<and> (\<not> IsNotFound e \<longrightarrow> snd (outcome r request w) \<noteq> None)"
proof (cases rule: Reconcile_cases[of r request w])
  case (Absent e' w1' serr w2)
  with assms have "e' = e" "w1' = w1" by simp_all
  with Absent show ?thesis
    by (simp add: NewAggregate_def sync_errs_def)
next
  case (Deferred ic w1 d w2 i w3 g w4 serr w5)
  with assms show ?thesis by simp
next
  case (Enforced ic w1 dns w2 infra w3 cfg w4 errs s5 serr w6)
  with assms show ?thesis by simp
qed

theorem fetch_failure_only_syncs_witness:
  "pass fake edge_request (holding None [] [])
     = [Get_IngressController edge_request (Inl (StatusNotFound ''edge'')), Method SyncOperatorStatus None]
   \<and> snd (outcome fake edge_request (holding None [] [])) = None"
proof -
  have g: "client_Get_IngressController (client fake) edge_request (holding None [] [])
             = (Inl (StatusNotFound ''edge''), holding None [] [])"
    by code_simp
  have s: "fst (syncOperatorStatus fake (holding None [] [])) = None"
    by code_simp
  from fetch_failure_only_syncs[OF g] s show ?thesis
    by (simp add: NewAggregate_def sync_errs_def)
qed

text \<open>
  C8. Once the ingress controller is fetched, the three cluster configs (DNS,
  Infrastructure, Ingress) are each fetched, whatever the outcome of the others, and
  each failure is an entry of the combined error. If any of the three fails, the rest
  of the pass is the sync of the operator status alone: no method of the enforcement
  is entered, and the combined error is non-nil. If all three succeed, the
  enforcement is entered.
\<close>

theorem cluster_configs_gate:
  assumes "client_Get_IngressController (client r) request w = (Inr ic, w1)"
    and "client_Get_DNS (client r) cluster w1 = (d, w2)"
    and "client_Get_Infrastructure (client r) cluster w2 = (i, w3)"
    and "client_Get_Ingress (client r) cluster w3 = (g, w4)"
  shows "\<exists>rest. pass r request w =
            [Get_IngressController request (Inr ic), Get_DNS d, Get_Infrastructure i, Get_Ingress g] @ rest
     \<and> (isl d \<or> isl i \<or> isl g \<longrightarrow>
          rest = [Method SyncOperatorStatus (fst (syncOperatorStatus r w4))]
          \<and> (\<forall>st. Enter st \<notin> set (pass r request w))
          \<and> (\<exists>more. snd (outcome r request w) = Some (Aggregate (config_errs d i g @ more))))
     \<and> (\<not> (isl d \<or> isl i \<or> isl g) \<longrightarrow>
          Enter EnsureRouterNamespace \<in> set rest \<and> Enter EnforceEffectiveIngressDomain \<in> set rest)
     \<and> (\<forall>e. d = Inl e \<longrightarrow> Errorf ''failed to get dns 'cluster': %v'' [] e \<in> set (config_errs d i g))
     \<and> (\<forall>e. i = Inl e \<longrightarrow> Errorf ''failed to get infrastructure 'cluster': %v'' [] e \<in> set (config_errs d i g))
     \<and> (\<forall>e. g = Inl e \<longrightarrow> Errorf ''failed to get ingress 'cluster': %v'' [] e \<in> set (config_errs d i g))"
proof (cases rule: Reconcile_cases[of r request w])
  case (Absent e w1 serr w2)
  with assms show ?thesis by simp
next
  case (Deferred ic' w1' d' w2' i' w3' g' w4' serr w5)
  with assms have eq: "ic' = ic" "d' = d" "i' = i" "g' = g" "w4' = w4" by simp_all
  have "config_errs d i g \<noteq> []"
    using Deferred(5) eq by (cases d; cases i; cases g) (simp_all add: config_errs_def)
  with Deferred eq show ?thesis
    by (auto simp: NewAggregate_def config_errs_def)
next
  case (Enforced ic' w1' dns w2' infra w3' cfg w4' errs s5 serr w6)
  with assms have eq: "ic' = ic" "d = Inr dns" "i = Inr infra" "g = Inr cfg" by simp_all
  let ?s4 = "\<lparr>world = w4',
            trace = [Get_IngressController request (Inr ic'), Get_DNS (Inr dns), Get_Infrastructure (Inr infra),
                     Get_Ingress (Inr cfg)]\<rparr>"
  from enforce_grows[of ?s4 r ic' dns infra cfg "[]"] Enforced(5)
  obtain evs where evs: "trace s5 = trace ?s4 @ evs"
    by (auto simp: grows_def)
  from enforce_enters[of r ic' dns infra cfg "[]" ?s4] Enforced(5) evs
  have "Enter EnsureRouterNamespace \<in> set evs" "Enter EnforceEffectiveIngressDomain \<in> set evs"
    by auto
  with Enforced(8) evs eq show ?thesis
    by (simp add: config_errs_def)
qed

theorem cluster_configs_gate_witness:
  "(\<forall>st. Enter st \<notin> set (pass fake edge_request (holding (Some edge) [edge] [T_Get_Infrastructure])))
   \<and> (\<exists>more. snd (outcome fake edge_request (holding (Some edge) [edge] [T_Get_Infrastructure]))
          = Some (Aggregate (Errorf ''failed to get infrastructure 'cluster': %v'' [] boom # more)))"
proof -
  let ?w = "holding (Some edge) [edge] [T_Get_Infrastructure]"
  have g1: "client_Get_IngressController (client fake) edge_request ?w = (Inr edge, ?w)"
    by code_simp
  have g2: "client_Get_DNS (client fake) cluster ?w = (Inr \<lparr>dns_Spec_BaseDomain = ''example.com''\<rparr>, ?w)"
    by code_simp
  have g3: "client_Get_Infrastructure (client fake) cluster ?w = (Inl boom, ?w)"
    by code_simp
  have g4: "client_Get_Ingress (client fake) cluster ?w = (Inr \<lparr>ingress_Spec_Domain = ''apps.example.com''\<rparr>, ?w)"
    by code_simp
  from cluster_configs_gate[OF g1 g2 g3 g4] show ?thesis
    by (auto simp: config_errs_def)
qed

text \<open>
  C9, as amended. Every pass ends with the sync of the operator status, whether or not
  the ingress controller was found and whatever the enforcement steps returned. The
  sync of the ingress controller's own status runs in a pass exactly when
  \<open>ensureIngressController\<close> was entered and the router deployment was ensured without
  error; it then runs whatever the load balancer service, the DNS record, the internal
  service, the metrics integration and the listing of events returned. It does not run
  when the ingress controller was not found, when a cluster config is missing, when the
  domain or the strategy was not enforced, on the deletion path, when the finalizer
  could not be enforced, or when the router deployment failed.
\<close>

theorem status_sync_runs:
  "(\<exists>serr. pass r request w \<noteq> [] \<and> last (pass r request w) = Method SyncOperatorStatus serr)
   \<and> ((\<exists>x. Method SyncIngressControllerStatus x \<in> set (pass r request w)) \<longleftrightarrow>
        (Enter EnsureIngressController \<in> set (pass r request w)
         \<and> Method EnsureRouterDeployment None \<in> set (pass r request w)))"
proof (cases rule: Reconcile_cases[of r request w])
  case (Absent e w1 serr w2)
  then show ?thesis by simp
next
  case (Deferred ic w1 d w2 i w3 g w4 serr w5)
  then show ?thesis by simp
next
  case (Enforced ic w1 dns w2 infra w3 cfg w4 errs s5 serr w6)
  let ?s4 = "\<lparr>world = w4,
            trace = [Get_IngressController request (Inr ic), Get_DNS (Inr dns), Get_Infrastructure (Inr infra),
                     Get_Ingress (Inr cfg)]\<rparr>"
  have s5: "snd (enforce r ic dns infra cfg [] ?s4) = s5"
    using Enforced(5) by simp
  from enforce_status_sync[of ?s4 r ic dns infra cfg "[]"] s5
  have "(\<exists>x. Method SyncIngressControllerStatus x \<in> set (trace s5)) \<longleftrightarrow>
        (Enter EnsureIngressController \<in> set (trace s5) \<and> Method EnsureRouterDeployment None \<in> set (trace s5))"
    by simp
  with Enforced(8) show ?thesis by simp
qed

theorem status_sync_runs_witness:
  "(\<exists>x. Method SyncIngressControllerStatus x
          \<in> set (pass fake edge_request (holding (Some edge) [edge] [T_Method EnsureDNS, T_Create])))
   \<and> Method EnsureDNS (Some boom)
          \<in> set (pass fake edge_request (holding (Some edge) [edge] [T_Method EnsureDNS, T_Create]))"
proof -
  let ?p = "pass fake edge_request (holding (Some edge) [edge] [T_Method EnsureDNS, T_Create])"
  have "Enter EnsureIngressController \<in> set ?p" "Method EnsureRouterDeployment None \<in> set ?p"
    "Method EnsureDNS (Some boom) \<in> set ?p"
    by code_simp+
  with status_sync_runs[of fake edge_request "holding (Some edge) [edge] [T_Method EnsureDNS, T_Create]"]
  show ?thesis by blast
qed

text \<open>The claim as stated fails when an upstream step fails: the ingress controller is
  found, the router deployment fails, and the pass ends with the sync of the operator
  status without any sync of the ingress controller's status.\<close>

theorem status_sync_skipped:
  "Get_IngressController edge_request (Inr edge_published)
     \<in> set (pass fake edge_request (holding (Some edge_published) [] [T_Method EnsureRouterDeployment]))
   \<and> Method EnsureRouterDeployment (Some boom)
     \<in> set (pass fake edge_request (holding (Some edge_published) [] [T_Method EnsureRouterDeployment]))
   \<and> last (pass fake edge_request (holding (Some edge_published) [] [T_Method EnsureRouterDeployment]))
       = Method SyncOperatorStatus None
   \<and> list_all (\<lambda>c. tag_of c \<noteq> T_Method SyncIngressControllerStatus)
       (pass fake edge_request (holding (Some edge_published) [] [T_Method EnsureRouterDeployment]))"
  by code_simp

text \<open>
  C10. For every request and every behaviour of the client, the cache and the other
  methods, \<open>Reconcile\<close> returns the zero-valued result: it never asks for a requeue or
  a requeue delay. Whether a pass is retried is left to the returned error.
\<close>

theorem Reconcile_result_zero:
  "fst (outcome r request w) = \<lparr>Requeue = False, RequeueAfter = 0\<rparr>"
  by (cases rule: Reconcile_cases[of r request w]) simp_all

theorem Reconcile_result_zero_witness:
  "fst (outcome fake edge_request (holding (Some edge_deleting) [] [T_Get_Infrastructure]))
     = \<lparr>Requeue = False, RequeueAfter = 0\<rparr>
   \<and> snd (outcome fake edge_request (holding (Some edge_deleting) [] [T_Get_Infrastructure])) \<noteq> None"
proof -
  have "snd (outcome fake edge_request (holding (Some edge_deleting) [] [T_Get_Infrastructure])) \<noteq> None"
    by code_simp
  then show ?thesis
    using Reconcile_result_zero[of fake edge_request "holding (Some edge_deleting) [] [T_Get_Infrastructure]"]
    by simp
qed

end
